theory Spec2Isabelle
  imports Main
begin

section \<open>Python values\<close>

text \<open>
  A Python \<^verbatim>\<open>str\<close> is a sequence of Unicode code points, so it is a list of naturals here;
  \<open>ustr\<close> turns an ASCII literal of the source into one. The keys of the job dictionaries
  are always literals of the program and stay HOL strings. A job is the dictionary the
  source stores: its values are strings or \<^verbatim>\<open>None\<close>.
\<close>

type_synonym py_str = "nat list"

type_synonym bytes = "nat list"

definition ustr :: "string \<Rightarrow> py_str" where
  "ustr s = map of_char s"

datatype jval = PyNone | PyStr py_str

type_synonym job = "string \<rightharpoonup> jval"

text \<open>\<^verbatim>\<open>str.isspace\<close> of CPython, per code point, and \<^verbatim>\<open>str.strip()\<close>.\<close>

definition isspace :: "nat \<Rightarrow> bool" where
  "isspace c \<longleftrightarrow>
     (9 \<le> c \<and> c \<le> 13) \<or> (28 \<le> c \<and> c \<le> 32) \<or> c = 133 \<or> c = 160 \<or> c = 5760 \<or>
     (8192 \<le> c \<and> c \<le> 8202) \<or> c = 8232 \<or> c = 8233 \<or> c = 8239 \<or> c = 8287 \<or> c = 12288"

definition strip :: "py_str \<Rightarrow> py_str" where
  "strip s = rev (dropWhile isspace (rev (dropWhile isspace s)))"

text \<open>Truthiness of the values the source tests with \<^verbatim>\<open>if x\<close> / \<^verbatim>\<open>if not x\<close>.\<close>

definition truthy_dict :: "job option \<Rightarrow> bool" where
  "truthy_dict d = (case d of None \<Rightarrow> False | Some r \<Rightarrow> r \<noteq> Map.empty)"

definition truthy_val :: "jval option \<Rightarrow> bool" where
  "truthy_val v = (case v of Some (PyStr u) \<Rightarrow> u \<noteq> [] | _ \<Rightarrow> False)"

definition truthy_str :: "py_str option \<Rightarrow> bool" where
  "truthy_str v = (case v of Some u \<Rightarrow> u \<noteq> [] | None \<Rightarrow> False)"

section \<open>Errors and program state\<close>

datatype error =
    HTTPException nat string
  | Exception string
  | KeyError string
  | ValidationError string
  | ConnectionError
  | OSError
  | UnicodeEncodeError

text \<open>
  The process state: whether a Redis client was obtained at start-up
  (\<open>redis_client\<close>), the contents of the Redis server under the \<^verbatim>\<open>job:\<close> keys (the stored
  JSON text is represented by the dictionary it encodes: \<^verbatim>\<open>json.loads (json.dumps d) = d\<close>
  for dictionaries of strings and \<^verbatim>\<open>None\<close>, and \<^verbatim>\<open>json.dumps\<close> never yields the empty
  string), the in-process map \<^verbatim>\<open>VIDEO_GENERATION_STATUS\<close>, the files on disk, the tasks
  handed to \<^verbatim>\<open>asyncio.create_task\<close>, and the virtual time spent in \<^verbatim>\<open>asyncio.sleep\<close>.

  The environment decides which Redis call fails: \<open>outage s n\<close> says that the \<open>n\<close>-th call
  to the server raises. \<open>redis_calls\<close> counts the calls, \<open>vidu_polls\<close> counts the status
  requests sent to the Tier-1 provider, and \<open>writes\<close> is the history of every job
  dictionary written, in order (to Redis, to the in-process map, or by mutating a
  dictionary of the in-process map in place). The last three are history variables.
\<close>

record state =
  redis_client :: bool
  redis :: "py_str \<rightharpoonup> job"
  memory :: "py_str \<rightharpoonup> job"
  fs :: "py_str \<rightharpoonup> bytes"
  tasks :: "(py_str \<times> py_str) list"
  clock :: nat
  outage :: "nat \<Rightarrow> bool"
  redis_calls :: nat
  vidu_polls :: nat
  writes :: "(py_str \<times> job) list"

type_synonym 'a py = "state \<Rightarrow> (error + 'a) \<times> state"

definition bind :: "'a py \<Rightarrow> ('a \<Rightarrow> 'b py) \<Rightarrow> 'b py" where
  "bind m f s = (case m s of (Inl e, s') \<Rightarrow> (Inl e, s') | (Inr a, s') \<Rightarrow> f a s')"

definition try_except :: "'a py \<Rightarrow> (error \<Rightarrow> 'a py) \<Rightarrow> 'a py" where
  "try_except m h s = (case m s of (Inl e, s') \<Rightarrow> h e s' | (Inr a, s') \<Rightarrow> (Inr a, s'))"

definition return :: "'a \<Rightarrow> 'a py" where
  "return a s = (Inr a, s)"

definition raise :: "error \<Rightarrow> 'a py" where
  "raise e s = (Inl e, s)"

section \<open>The Redis client\<close>

definition redis_key :: "py_str \<Rightarrow> py_str" where
  "redis_key job_id = ustr ''job:'' @ job_id"

definition redis_setex :: "py_str \<Rightarrow> nat \<Rightarrow> job \<Rightarrow> unit py" where
  "redis_setex key ttl v s =
     (let s' = s\<lparr>redis_calls := Suc (redis_calls s)\<rparr>
      in if outage s (redis_calls s) then (Inl ConnectionError, s')
         else (Inr (), s'\<lparr>redis := (redis s)(key \<mapsto> v)\<rparr>))"

definition redis_get :: "py_str \<Rightarrow> job option py" where
  "redis_get key s =
     (let s' = s\<lparr>redis_calls := Suc (redis_calls s)\<rparr>
      in if outage s (redis_calls s) then (Inl ConnectionError, s')
         else (Inr (redis s key), s'))"

section \<open>Job store helpers\<close>

definition log_write :: "py_str \<Rightarrow> job \<Rightarrow> state \<Rightarrow> state" where
  "log_write job_id data s = s\<lparr>writes := writes s @ [(job_id, data)]\<rparr>"

definition memory_set :: "py_str \<Rightarrow> job \<Rightarrow> state \<Rightarrow> state" where
  "memory_set job_id data s = log_write job_id data (s\<lparr>memory := (memory s)(job_id \<mapsto> data)\<rparr>)"

text \<open>\<^verbatim>\<open>store_job_data\<close>: Redis when a client exists and the call succeeds, else the map.\<close>

definition store_job_data :: "py_str \<Rightarrow> job \<Rightarrow> unit py" where
  "store_job_data job_id data s =
     (if redis_client s then
        (case redis_setex (redis_key job_id) 3600 data s of
           (Inr u, s') \<Rightarrow> (Inr (), log_write job_id data s')
         | (Inl e, s') \<Rightarrow> (Inr (), memory_set job_id data s'))
      else (Inr (), memory_set job_id data s))"

text \<open>
  \<^verbatim>\<open>get_job_data\<close>. The flag says whether the dictionary returned is the object held by
  the in-process map (a later in-place \<^verbatim>\<open>update\<close> of it changes the map), or a fresh one
  decoded from Redis.
\<close>

definition get_job_data_ref :: "py_str \<Rightarrow> (job option \<times> bool) py" where
  "get_job_data_ref job_id s =
     (if redis_client s then
        (case redis_get (redis_key job_id) s of
           (Inr (Some data), s') \<Rightarrow> (Inr (Some data, False), s')
         | (Inr None, s') \<Rightarrow> (Inr (memory s' job_id, True), s')
         | (Inl e, s') \<Rightarrow> (Inr (memory s' job_id, True), s'))
      else (Inr (memory s job_id, True), s))"

definition get_job_data :: "py_str \<Rightarrow> job option py" where
  "get_job_data job_id = bind (get_job_data_ref job_id) (\<lambda>(d, in_memory). return d)"

text \<open>\<^verbatim>\<open>update_job_data\<close>: \<^verbatim>\<open>dict.update\<close> is \<open>++\<close>, applied in place to the object read.\<close>

definition update_job_data :: "py_str \<Rightarrow> job \<Rightarrow> unit py" where
  "update_job_data job_id updates =
     bind (get_job_data_ref job_id) (\<lambda>(current_data, in_memory).
       if truthy_dict current_data then
         (let merged = the current_data ++ updates
          in (\<lambda>s. store_job_data job_id merged
                    (if in_memory then memory_set job_id merged s else s)))
       else return ())"

section \<open>HTTP handlers\<close>

datatype response =
    Video_Job_Created_Response py_str py_str py_str
  | Status_Response py_str py_str py_str "py_str option"
  | FileResponse py_str py_str "(py_str \<times> py_str) list"

definition getitem :: "job \<Rightarrow> string \<Rightarrow> jval py" where
  "getitem d k = (case d k of None \<Rightarrow> raise (KeyError k) | Some v \<Rightarrow> return v)"

text \<open>A field of a pydantic response model declared \<^verbatim>\<open>str\<close> rejects \<^verbatim>\<open>None\<close>.\<close>

definition as_str :: "jval \<Rightarrow> py_str py" where
  "as_str v = (case v of PyNone \<Rightarrow> raise (ValidationError ''str type expected'') | PyStr u \<Rightarrow> return u)"

definition opt_str :: "jval option \<Rightarrow> py_str option" where
  "opt_str v = (case v of Some (PyStr u) \<Rightarrow> Some u | _ \<Rightarrow> None)"

definition create_task :: "py_str \<times> py_str \<Rightarrow> unit py" where
  "create_task t s = (Inr (), s\<lparr>tasks := tasks s @ [t]\<rparr>)"

definition initial_job :: "py_str \<Rightarrow> job" where
  "initial_job prompt =
     [''status'' \<mapsto> PyStr (ustr ''processing''),
      ''message'' \<mapsto> PyStr (ustr ''Video generation has started''),
      ''video_url'' \<mapsto> PyNone,
      ''prompt'' \<mapsto> PyStr prompt]"

text \<open>\<^verbatim>\<open>generate_video\<close>; \<open>uuid4\<close> is the identifier \<^verbatim>\<open>str(uuid.uuid4())\<close> yields.\<close>

definition generate_video :: "py_str \<Rightarrow> py_str \<Rightarrow> response py" where
  "generate_video prompt uuid4 =
     (if strip prompt = [] then raise (HTTPException 400 ''Prompt is required'')
      else
        (let job_id = uuid4; job_data = initial_job prompt
         in bind (store_job_data job_id job_data) (\<lambda>_.
            bind (create_task (job_id, prompt)) (\<lambda>_.
            return (Video_Job_Created_Response job_id (ustr ''processing'')
                      (ustr ''Video generation has started''))))))"

definition get_status :: "py_str \<Rightarrow> response py" where
  "get_status job_id =
     bind (get_job_data job_id) (\<lambda>job_data.
       if \<not> truthy_dict job_data then raise (HTTPException 404 ''Job ID not found'')
       else
         bind (getitem (the job_data) ''status'') (\<lambda>st.
         bind (getitem (the job_data) ''message'') (\<lambda>msg.
         bind (as_str st) (\<lambda>st'.
         bind (as_str msg) (\<lambda>msg'.
         return (Status_Response job_id st' msg' (opt_str (the job_data ''video_url''))))))))"

definition os_path_exists :: "state \<Rightarrow> py_str \<Rightarrow> bool" where
  "os_path_exists s p \<longleftrightarrow> p \<noteq> [] \<and> fs s p \<noteq> None"




section \<open>Tier 1: the remote provider and its polling loop\<close>

text \<open>
  What the outside world answers. \<open>vidu_post\<close>: the submission either raises, or returns
  a status code and what \<^verbatim>\<open>response.json().get("task_id")\<close> gives (which may raise too).
  \<open>vidu_poll task_id attempt\<close>: the answer to the status request of that attempt, with the
  decoded \<^verbatim>\<open>state\<close> (default \<^verbatim>\<open>""\<close>) and \<^verbatim>\<open>creations\<close> (default \<^verbatim>\<open>[]\<close>). \<open>vidu_fetch\<close>: the
  artifact download and the write of the local file, which raise or give the content.
  \<open>hf_login\<close>: the import of the client library and the login; \<open>hf_predict\<close>: the
  hosted model's call, which raises or names a temporary file and may have left content
  there. The two copy fields say whether \<^verbatim>\<open>shutil.copy2\<close> raises in Tier 2 and Tier 3.
\<close>

datatype poll_reply =
    RequestRaises error
  | HttpReply nat "error + py_str \<times> job list"

record env =
  vidu_api_key :: "py_str option"
  vidu_post :: "py_str \<Rightarrow> error + nat \<times> (error + py_str option)"
  vidu_poll :: "py_str \<Rightarrow> nat \<Rightarrow> poll_reply"
  vidu_fetch :: "py_str \<Rightarrow> error + bytes"
  hf_login :: "error option"
  hf_predict :: "py_str \<Rightarrow> error + py_str \<times> bytes option"
  hf_copy_error :: "error option"
  mock_copy_error :: "error option"

definition asyncio_sleep :: "nat \<Rightarrow> unit py" where
  "asyncio_sleep n s = (Inr (), s\<lparr>clock := clock s + n\<rparr>)"

definition write_file :: "py_str \<Rightarrow> bytes \<Rightarrow> unit py" where
  "write_file path content s = (Inr (), s\<lparr>fs := (fs s)(path \<mapsto> content)\<rparr>)"

definition job_video_path :: "py_str \<Rightarrow> py_str" where
  "job_video_path job_id = ustr ''./videos/'' @ job_id @ ustr ''.mp4''"

definition download_vidu_video :: "env \<Rightarrow> py_str \<Rightarrow> py_str \<Rightarrow> py_str option py" where
  "download_vidu_video env url job_id =
     try_except
       (case vidu_fetch env url of
          Inl e \<Rightarrow> raise e
        | Inr content \<Rightarrow>
            (let video_path = job_video_path job_id
             in bind (write_file video_path content) (\<lambda>_. return (Some video_path))))
       (\<lambda>e. return None)"

text \<open>
  One pass through the body of the loop of \<^verbatim>\<open>poll_vidu_task\<close>, as the action it ends
  with: sleep and go on to the next attempt, return \<^verbatim>\<open>None\<close>, or return the result of
  downloading the artifact.
\<close>

datatype poll_action = Sleep | ReturnNone | Download py_str

definition poll_step :: "poll_reply \<Rightarrow> poll_action" where
  "poll_step reply =
     (case reply of
        RequestRaises e \<Rightarrow> Sleep
      | HttpReply status_code js \<Rightarrow>
          if status_code \<noteq> 200 then Sleep
          else (case js of
                  Inl e \<Rightarrow> Sleep
                | Inr (st, creations) \<Rightarrow>
                    if st = ustr ''success'' then
                      (case creations of
                         [] \<Rightarrow> ReturnNone
                       | c # cs \<Rightarrow>
                           if truthy_val (c ''url'') then Download (the (opt_str (c ''url'')))
                           else ReturnNone)
                    else if st = ustr ''failed'' then ReturnNone
                    else Sleep))"

fun poll_loop :: "nat \<Rightarrow> nat \<Rightarrow> env \<Rightarrow> py_str \<Rightarrow> py_str \<Rightarrow> py_str option py" where
  "poll_loop 0 attempt env task_id job_id s = (Inr None, s)"
| "poll_loop (Suc n) attempt env task_id job_id s =
     (let s1 = s\<lparr>vidu_polls := Suc (vidu_polls s)\<rparr>
      in case poll_step (vidu_poll env task_id attempt) of
           Sleep \<Rightarrow> poll_loop n (Suc attempt) env task_id job_id (snd (asyncio_sleep 5 s1))
         | ReturnNone \<Rightarrow> (Inr None, s1)
         | Download url \<Rightarrow> download_vidu_video env url job_id s1)"

definition poll_vidu_task :: "env \<Rightarrow> py_str \<Rightarrow> py_str \<Rightarrow> py_str option py" where
  "poll_vidu_task env task_id job_id = poll_loop 120 0 env task_id job_id"

section \<open>The fallback chain\<close>

definition PUBLIC_BASE_URL :: py_str where
  "PUBLIC_BASE_URL = ustr ''https://bdcc07030d0e.ngrok-free.app''"

definition shutil_copy2 :: "error option \<Rightarrow> py_str \<Rightarrow> py_str \<Rightarrow> unit py" where
  "shutil_copy2 failure src dst s =
     (case failure of
        Some e \<Rightarrow> (Inl e, s)
      | None \<Rightarrow> (case fs s src of
                   None \<Rightarrow> (Inl OSError, s)
                 | Some content \<Rightarrow> write_file dst content s))"

text \<open>The dictionaries the orchestration passes to \<^verbatim>\<open>update_job_data\<close>.\<close>

definition connecting_update :: job where
  "connecting_update =
     [''message'' \<mapsto> PyStr (129302 # ustr '' Connecting to Vidu AI model...''),
      ''status'' \<mapsto> PyStr (ustr ''processing'')]"

definition hf_message_update :: job where
  "hf_message_update = [''message'' \<mapsto> PyStr (129302 # ustr '' Using HuggingFace model...'')]"

definition completed_update :: "py_str \<Rightarrow> py_str \<Rightarrow> py_str \<Rightarrow> job" where
  "completed_update message video_url video_path =
     [''status'' \<mapsto> PyStr (ustr ''completed''),
      ''message'' \<mapsto> PyStr message,
      ''video_url'' \<mapsto> PyStr video_url,
      ''video_path'' \<mapsto> PyStr video_path]"

definition failed_update :: job where
  "failed_update =
     [''status'' \<mapsto> PyStr (ustr ''error''),
      ''message'' \<mapsto> PyStr (10060 # ustr '' All video generation methods failed''),
      ''video_url'' \<mapsto> PyNone]"

text \<open>
  Tier 3, \<^verbatim>\<open>use_mock_video_fallback\<close>: \<open>mock_attempt\<close> is the body of its \<^verbatim>\<open>try\<close>, the
  handler writes the \<^verbatim>\<open>error\<close> record.
\<close>

definition mock_attempt :: "env \<Rightarrow> py_str \<Rightarrow> py_str \<Rightarrow> unit py" where
  "mock_attempt env job_id prompt =
     (let mock_video_path = ustr ''./videos/mock_video.mp4'';
          final_path = job_video_path job_id
      in (\<lambda>s. if os_path_exists s mock_video_path then
                 bind (shutil_copy2 (mock_copy_error env) mock_video_path final_path) (\<lambda>_.
                   update_job_data job_id
                     (completed_update (9989 # ustr '' Demo video ready (using placeholder)'')
                        (ustr ''/api/download/'' @ job_id) final_path)) s
               else raise (Exception ''No mock video available'') s))"

definition use_mock_video_fallback :: "env \<Rightarrow> py_str \<Rightarrow> py_str \<Rightarrow> unit py" where
  "use_mock_video_fallback env job_id prompt =
     try_except (mock_attempt env job_id prompt)
       (\<lambda>e. update_job_data job_id failed_update)"

definition gradio_predict :: "env \<Rightarrow> py_str \<Rightarrow> py_str py" where
  "gradio_predict env prompt s =
     (case hf_predict env prompt of
        Inl e \<Rightarrow> (Inl e, s)
      | Inr (temp_video_path, content) \<Rightarrow>
          (Inr temp_video_path,
           case content of None \<Rightarrow> s | Some b \<Rightarrow> s\<lparr>fs := (fs s)(temp_video_path \<mapsto> b)\<rparr>))"

text \<open>Tier 2, \<^verbatim>\<open>use_huggingface_fallback\<close>: the body of its \<^verbatim>\<open>try\<close>, then the function.\<close>

definition hf_attempt :: "env \<Rightarrow> py_str \<Rightarrow> py_str \<Rightarrow> unit py" where
  "hf_attempt env job_id prompt =
     (case hf_login env of
        Some e \<Rightarrow> raise e
      | None \<Rightarrow>
          bind (update_job_data job_id hf_message_update) (\<lambda>_.
          bind (gradio_predict env prompt) (\<lambda>temp_video_path.
            (let permanent_video_path = job_video_path job_id
             in (\<lambda>s. if os_path_exists s temp_video_path then
                        bind (shutil_copy2 (hf_copy_error env) temp_video_path permanent_video_path) (\<lambda>_.
                          update_job_data job_id
                            (completed_update (9989 # ustr '' Video generated successfully!'')
                               (ustr ''/api/download/'' @ job_id) permanent_video_path)) s
                      else raise (Exception ''HuggingFace video not found'') s)))))"

definition use_huggingface_fallback :: "env \<Rightarrow> py_str \<Rightarrow> py_str \<Rightarrow> unit py" where
  "use_huggingface_fallback env job_id prompt =
     try_except (hf_attempt env job_id prompt)
       (\<lambda>hf_error. use_mock_video_fallback env job_id prompt)"

text \<open>
  Tier 1, \<^verbatim>\<open>video_generation_process\<close>: \<open>vidu_attempt\<close> is the body of its \<^verbatim>\<open>try\<close>, the
  handler goes on to Tier 2.
\<close>

definition vidu_attempt :: "env \<Rightarrow> py_str \<Rightarrow> py_str \<Rightarrow> unit py" where
  "vidu_attempt env job_id prompt =
     bind (update_job_data job_id connecting_update) (\<lambda>_.
       if \<not> truthy_str (vidu_api_key env) then raise (Exception ''Missing Vidu API key'')
       else
         (case vidu_post env prompt of
            Inl e \<Rightarrow> raise e
          | Inr (status_code, js) \<Rightarrow>
              if status_code = 200 then
                (case js of
                   Inl e \<Rightarrow> raise e
                 | Inr task_id \<Rightarrow>
                     if \<not> truthy_str task_id
                     then raise (Exception ''No task_id in Vidu API response'')
                     else
                       bind (poll_vidu_task env (the task_id) job_id) (\<lambda>video_path.
                         if truthy_str video_path then
                           update_job_data job_id
                             (completed_update (9989 # ustr '' Video generated successfully!'')
                                (PUBLIC_BASE_URL @ ustr ''/api/download/'' @ job_id)
                                (the video_path))
                         else raise (Exception ''Vidu API failed'')))
              else raise (Exception ''Vidu API failed'')))"

definition video_generation_process :: "env \<Rightarrow> py_str \<Rightarrow> py_str \<Rightarrow> unit py" where
  "video_generation_process env job_id prompt =
     try_except (vidu_attempt env job_id prompt)
       (\<lambda>vidu_error. use_huggingface_fallback env job_id prompt)"

section \<open>Example inputs\<close>

definition quiet_env :: env where
  "quiet_env =
     \<lparr>vidu_api_key = None,
      vidu_post = (\<lambda>prompt. Inl ConnectionError),
      vidu_poll = (\<lambda>task_id attempt.
         if attempt = 0 then RequestRaises ConnectionError
         else HttpReply 200 (Inr (ustr ''failed'', []))),
      vidu_fetch = (\<lambda>url. Inl ConnectionError),
      hf_login = Some (Exception ''No module named gradio_client''),
      hf_predict = (\<lambda>prompt. Inl ConnectionError),
      hf_copy_error = None,
      mock_copy_error = None\<rparr>"

definition boot :: "bool \<Rightarrow> (nat \<Rightarrow> bool) \<Rightarrow> state" where
  "boot client out =
     \<lparr>redis_client = client, redis = Map.empty, memory = Map.empty, fs = Map.empty,
      tasks = [], clock = 0, outage = out, redis_calls = 0, vidu_polls = 0, writes = []\<rparr>"

section \<open>Specification vocabulary\<close>

definition new_writes :: "state \<Rightarrow> state \<Rightarrow> (py_str \<times> job) list" where
  "new_writes s s' = drop (length (writes s)) (writes s')"

definition visible :: "state \<Rightarrow> py_str \<Rightarrow> job option" where
  "visible s job_id =
     (if redis_client s then
        (case redis s (redis_key job_id) of Some r \<Rightarrow> Some r | None \<Rightarrow> memory s job_id)
      else memory s job_id)"

definition wf_store :: "state \<Rightarrow> bool" where
  "wf_store s \<longleftrightarrow>
     (\<forall>k r. redis s k = Some r \<longrightarrow> r ''status'' \<noteq> None) \<and>
     (\<forall>k r. memory s k = Some r \<longrightarrow> r ''status'' \<noteq> None)"

definition prompt_inv :: "jval option \<Rightarrow> py_str \<Rightarrow> state \<Rightarrow> bool" where
  "prompt_inv p job_id s \<longleftrightarrow>
     (\<forall>r. redis s (redis_key job_id) = Some r \<longrightarrow> r ''prompt'' = p) \<and>
     (\<forall>r. memory s job_id = Some r \<longrightarrow> r ''prompt'' = p)"

definition same_store :: "state \<Rightarrow> state \<Rightarrow> bool" where
  "same_store s s' \<longleftrightarrow>
     redis_client s' = redis_client s \<and> redis s' = redis s \<and> memory s' = memory s \<and>
     outage s' = outage s \<and> redis_calls s' = redis_calls s \<and> writes s' = writes s"

definition upd :: "py_str \<Rightarrow> job \<Rightarrow> state \<Rightarrow> state" where
  "upd job_id u s = snd (update_job_data job_id u s)"

fun run :: "py_str \<Rightarrow> job list \<Rightarrow> state \<Rightarrow> state \<Rightarrow> bool" where
  "run job_id [] s s' = same_store s s'"
| "run job_id (u # us) s s' = (\<exists>s1. same_store s s1 \<and> run job_id us (upd job_id u s1) s')"

definition final_update :: "job \<Rightarrow> bool" where
  "final_update t \<longleftrightarrow> t = failed_update \<or> (\<exists>m url path. t = completed_update m url path)"

definition is_terminal :: "job \<Rightarrow> bool" where
  "is_terminal r \<longleftrightarrow>
     r ''status'' = Some (PyStr (ustr ''completed'')) \<or> r ''status'' = Some (PyStr (ustr ''error''))"

definition is_processing :: "job \<Rightarrow> bool" where
  "is_processing r \<longleftrightarrow> r ''status'' = Some (PyStr (ustr ''processing''))"

fun no_regress :: "job list \<Rightarrow> bool" where
  "no_regress [] = True"
| "no_regress (r # rs) = ((is_terminal r \<longrightarrow> list_all (\<lambda>r'. \<not> is_processing r') rs) \<and> no_regress rs)"

definition demo_state :: state where
  "demo_state = (boot False (\<lambda>n. False))\<lparr>memory := [[7] \<mapsto> initial_job (ustr ''a cat'')]\<rparr>"




section \<open>Blank prompts\<close>

lemma strip_empty_iff: "strip s = [] \<longleftrightarrow> (\<forall>c\<in>set s. isspace c)"
proof -
  have "strip s = [] \<longleftrightarrow> (\<forall>c\<in>set (dropWhile isspace s). isspace c)"
    by (simp add: strip_def dropWhile_eq_Nil_conv)
  also have "\<dots> \<longleftrightarrow> dropWhile isspace s = []"
  proof
    assume a: "\<forall>c\<in>set (dropWhile isspace s). isspace c"
    show "dropWhile isspace s = []"
    proof (rule ccontr)
      assume n: "dropWhile isspace s \<noteq> []"
      then have "\<not> isspace (hd (dropWhile isspace s))" by (rule hd_dropWhile)
      moreover have "hd (dropWhile isspace s) \<in> set (dropWhile isspace s)" using n by simp
      ultimately show False using a by blast
    qed
  next
    assume e: "dropWhile isspace s = []"
    show "\<forall>c\<in>set (dropWhile isspace s). isspace c" unfolding e by simp
  qed
  also have "\<dots> \<longleftrightarrow> (\<forall>c\<in>set s. isspace c)"
    by (simp add: dropWhile_eq_Nil_conv)
  finally show ?thesis .
qed

text \<open>
  C2. A prompt that is empty or made of whitespace only makes \<open>generate_video\<close> raise the
  400 error "Prompt is required", and the state it leaves is the state it started from:
  nothing is written to Redis or to the in-process map, and no task is scheduled.
\<close>

theorem blank_prompt_rejected:
  "\<forall>c\<in>set prompt. isspace c \<Longrightarrow>
   generate_video prompt uuid4 s = (Inl (HTTPException 400 ''Prompt is required''), s)"
  by (simp add: generate_video_def strip_empty_iff raise_def)

theorem blank_prompt_rejected_witness:
  "list_all isspace [32, 9, 10, 8195] \<and>
   generate_video [32, 9, 10, 8195] (ustr ''id'') (boot True (\<lambda>n. False)) =
     (Inl (HTTPException 400 ''Prompt is required''), boot True (\<lambda>n. False))"
proof -
  have h: "\<forall>c\<in>set [32, 9, 10, 8195]. isspace c" by (simp add: isspace_def)
  show ?thesis using h blank_prompt_rejected [OF h] by (simp add: list_all_iff)
qed

section \<open>Reads of the job store\<close>

text \<open>
  C10. When a Redis client was obtained at start-up and the server holds nothing under
  the job's key at the time of the read, \<open>get_job_data\<close> returns what the in-process map
  holds for the job (its entry, or \<^verbatim>\<open>None\<close>); the same happens when the call to the server
  raises. The fallback read is taken on a miss as well as on an error.
\<close>

theorem get_reads_memory_on_primary_miss:
  "redis_client s \<Longrightarrow> redis s (redis_key job_id) = None \<or> outage s (redis_calls s) \<Longrightarrow>
   fst (get_job_data job_id s) = Inr (memory s job_id)"
  by (auto simp add: get_job_data_def get_job_data_ref_def redis_get_def bind_def return_def Let_def)

theorem get_reads_memory_on_primary_miss_witness:
  "redis_client ((boot True (\<lambda>n. False))\<lparr>memory := [[7] \<mapsto> initial_job [99]]\<rparr>) \<and>
   redis ((boot True (\<lambda>n. False))\<lparr>memory := [[7] \<mapsto> initial_job [99]]\<rparr>) (redis_key [7]) = None \<and>
   fst (get_job_data [7] ((boot True (\<lambda>n. False))\<lparr>memory := [[7] \<mapsto> initial_job [99]]\<rparr>)) =
     Inr (Some (initial_job [99]))"
proof -
  let ?s = "(boot True (\<lambda>n. False))\<lparr>memory := [[7] \<mapsto> initial_job [99]]\<rparr>"
  have c: "redis_client ?s" by (simp add: boot_def)
  have m: "redis ?s (redis_key [7]) = None" by (simp add: boot_def)
  have "fst (get_job_data [7] ?s) = Inr (memory ?s [7])"
    using get_reads_memory_on_primary_miss [of ?s "[7]"] c m by blast
  then show ?thesis using c m by simp
qed

section \<open>Tier-1 polling\<close>

lemma ustr_success_failed [simp]:
  "ustr ''success'' \<noteq> ustr ''failed''" "ustr ''failed'' \<noteq> ustr ''success''"
  by (simp_all add: ustr_def)

lemma download_polls: "vidu_polls (snd (download_vidu_video env url job_id s)) = vidu_polls s"
  by (simp add: download_vidu_video_def try_except_def bind_def write_file_def return_def raise_def
      Let_def split: sum.splits)

lemma download_ok: "\<exists>r. fst (download_vidu_video env url job_id s) = Inr r"
  by (simp add: download_vidu_video_def try_except_def bind_def write_file_def return_def raise_def
      Let_def split: sum.splits)

lemma poll_loop_bound: "vidu_polls (snd (poll_loop n a env t j s)) \<le> vidu_polls s + n"
proof (induction n arbitrary: a s)
  case 0
  show ?case by simp
next
  case (Suc n)
  show ?case
  proof (cases "poll_step (vidu_poll env t a)")
    case Sleep
    have "vidu_polls (snd (poll_loop n (Suc a) env t j
            (snd (asyncio_sleep 5 (s\<lparr>vidu_polls := Suc (vidu_polls s)\<rparr>)))))
          \<le> vidu_polls (snd (asyncio_sleep 5 (s\<lparr>vidu_polls := Suc (vidu_polls s)\<rparr>))) + n"
      by (rule Suc.IH)
    then show ?thesis using Sleep by (simp add: asyncio_sleep_def)
  next
    case ReturnNone
    then show ?thesis by simp
  next
    case (Download u)
    then show ?thesis by (simp add: download_polls)
  qed
qed

lemma poll_loop_ok: "\<exists>r. fst (poll_loop n a env t j s) = Inr r"
proof (induction n arbitrary: a s)
  case 0
  show ?case by simp
next
  case (Suc n)
  show ?case
    by (cases "poll_step (vidu_poll env t a)") (simp_all add: Suc.IH download_ok)
qed

lemma poll_loop_pending:
  "(\<forall>i<k. poll_step (vidu_poll env t (a + i)) = Sleep) \<Longrightarrow>
   poll_loop (k + m) a env t j s =
   poll_loop m (a + k) env t j (s\<lparr>clock := clock s + 5 * k, vidu_polls := vidu_polls s + k\<rparr>)"
proof (induction k arbitrary: a s)
  case 0
  show ?case by simp
next
  case (Suc k)
  have h0: "poll_step (vidu_poll env t a) = Sleep" using Suc.prems by force
  have hk: "\<forall>i<k. poll_step (vidu_poll env t (Suc a + i)) = Sleep"
  proof (intro allI impI)
    fix i assume "i < k"
    then have "poll_step (vidu_poll env t (a + Suc i)) = Sleep" using Suc.prems by blast
    then show "poll_step (vidu_poll env t (Suc a + i)) = Sleep" by simp
  qed
  show ?case using h0 Suc.IH [OF hk] by (simp add: asyncio_sleep_def add.assoc)
qed

lemma poll_stops_at:
  assumes p: "\<forall>i<k. poll_step (vidu_poll env t i) = Sleep"
    and st: "poll_step (vidu_poll env t k) = ReturnNone"
  shows "poll_loop (k + Suc m) 0 env t j s =
         (Inr None, s\<lparr>clock := clock s + 5 * k, vidu_polls := vidu_polls s + k + 1\<rparr>)"
proof -
  have p': "\<forall>i<k. poll_step (vidu_poll env t (0 + i)) = Sleep" using p by simp
  have "poll_loop (k + Suc m) 0 env t j s =
        poll_loop (Suc m) (0 + k) env t j
          (s\<lparr>clock := clock s + 5 * k, vidu_polls := vidu_polls s + k\<rparr>)"
    by (rule poll_loop_pending [OF p'])
  also have "\<dots> = (Inr None, s\<lparr>clock := clock s + 5 * k, vidu_polls := vidu_polls s + k + 1\<rparr>)"
    using st by simp
  finally show ?thesis .
qed

lemma poll_failed_stops:
  assumes k: "k < 120"
    and p: "\<forall>i<k. poll_step (vidu_poll env t i) = Sleep"
    and f: "vidu_poll env t k = HttpReply 200 (Inr (ustr ''failed'', cs))"
  shows "poll_vidu_task env t j s =
         (Inr None, s\<lparr>clock := clock s + 5 * k, vidu_polls := vidu_polls s + k + 1\<rparr>)"
proof -
  have e: "120 = k + Suc (119 - k)" using k by arith
  have st: "poll_step (vidu_poll env t k) = ReturnNone" using f by (simp add: poll_step_def)
  show ?thesis
    unfolding poll_vidu_task_def by (subst e) (rule poll_stops_at [OF p st])
qed

lemma poll_all_pending:
  assumes p: "\<forall>i<n. poll_step (vidu_poll env t i) = Sleep"
  shows "poll_loop n 0 env t j s =
         (Inr None, s\<lparr>clock := clock s + 5 * n, vidu_polls := vidu_polls s + n\<rparr>)"
proof -
  have p': "\<forall>i<n. poll_step (vidu_poll env t (0 + i)) = Sleep" using p by simp
  have "poll_loop (n + 0) 0 env t j s =
        poll_loop 0 (0 + n) env t j (s\<lparr>clock := clock s + 5 * n, vidu_polls := vidu_polls s + n\<rparr>)"
    by (rule poll_loop_pending [OF p'])
  then show ?thesis by simp
qed

lemma poll_timeout:
  assumes p: "\<forall>i<120. poll_step (vidu_poll env t i) = Sleep"
  shows "poll_vidu_task env t j s =
         (Inr None, s\<lparr>clock := clock s + 600, vidu_polls := vidu_polls s + 120\<rparr>)"
proof -
  have e: "5 * 120 = (600::nat)" by simp
  show ?thesis
    unfolding poll_vidu_task_def poll_all_pending [OF p, of j s] e ..
qed

lemma poll_transient:
  assumes "(\<exists>e. vidu_poll env t a = RequestRaises e) \<or>
           (\<exists>code js. vidu_poll env t a = HttpReply code js \<and> code \<noteq> 200)"
  shows "poll_step (vidu_poll env t a) = Sleep \<and>
         poll_loop (Suc n) a env t j s =
         poll_loop n (Suc a) env t j (s\<lparr>vidu_polls := vidu_polls s + 1, clock := clock s + 5\<rparr>)"
proof -
  have st: "poll_step (vidu_poll env t a) = Sleep"
    using assms by (auto simp add: poll_step_def)
  then show ?thesis by (simp add: asyncio_sleep_def)
qed

text \<open>
  C5. The loop of \<open>poll_vidu_task\<close> sends at most 120 status requests and never raises.
  When the attempts before attempt \<open>k\<close> were all pending and attempt \<open>k\<close> reports
  \<^verbatim>\<open>failed\<close>, it returns \<^verbatim>\<open>None\<close> at once: \<open>k + 1\<close> requests were sent, \<open>k\<close> delays of 5
  seconds slept. An attempt whose request raises or comes back with a status other than
  200 is pending: the loop goes on exactly as with one attempt fewer, one request more
  and one delay of 5 seconds more. When all 120 attempts are pending it returns \<^verbatim>\<open>None\<close>
  after 120 requests and 600 seconds.
\<close>

theorem polling_budget:
  "vidu_polls (snd (poll_vidu_task env t j s)) \<le> vidu_polls s + 120 \<and>
   (\<exists>r. fst (poll_vidu_task env t j s) = Inr r) \<and>
   (\<forall>k cs. k < 120 \<and> (\<forall>i<k. poll_step (vidu_poll env t i) = Sleep) \<and>
        vidu_poll env t k = HttpReply 200 (Inr (ustr ''failed'', cs)) \<longrightarrow>
      poll_vidu_task env t j s =
        (Inr None, s\<lparr>clock := clock s + 5 * k, vidu_polls := vidu_polls s + k + 1\<rparr>)) \<and>
   (\<forall>n a. (\<exists>e. vidu_poll env t a = RequestRaises e) \<or>
          (\<exists>code js. vidu_poll env t a = HttpReply code js \<and> code \<noteq> 200) \<longrightarrow>
      poll_step (vidu_poll env t a) = Sleep \<and>
      poll_loop (Suc n) a env t j s =
        poll_loop n (Suc a) env t j (s\<lparr>vidu_polls := vidu_polls s + 1, clock := clock s + 5\<rparr>)) \<and>
   ((\<forall>i<120. poll_step (vidu_poll env t i) = Sleep) \<longrightarrow>
      poll_vidu_task env t j s =
        (Inr None, s\<lparr>clock := clock s + 600, vidu_polls := vidu_polls s + 120\<rparr>))"
proof (intro conjI allI impI)
  show "vidu_polls (snd (poll_vidu_task env t j s)) \<le> vidu_polls s + 120"
    unfolding poll_vidu_task_def by (rule poll_loop_bound)
  show "\<exists>r. fst (poll_vidu_task env t j s) = Inr r"
    unfolding poll_vidu_task_def by (rule poll_loop_ok)
next
  fix k cs
  assume "k < 120 \<and> (\<forall>i<k. poll_step (vidu_poll env t i) = Sleep) \<and>
        vidu_poll env t k = HttpReply 200 (Inr (ustr ''failed'', cs))"
  then show "poll_vidu_task env t j s =
        (Inr None, s\<lparr>clock := clock s + 5 * k, vidu_polls := vidu_polls s + k + 1\<rparr>)"
    using poll_failed_stops by blast
next
  fix n a
  assume h: "(\<exists>e. vidu_poll env t a = RequestRaises e) \<or>
          (\<exists>code js. vidu_poll env t a = HttpReply code js \<and> code \<noteq> 200)"
  show "poll_step (vidu_poll env t a) = Sleep" using poll_transient [OF h] by blast
  show "poll_loop (Suc n) a env t j s =
        poll_loop n (Suc a) env t j (s\<lparr>vidu_polls := vidu_polls s + 1, clock := clock s + 5\<rparr>)"
    using poll_transient [OF h] by blast
next
  assume "\<forall>i<120. poll_step (vidu_poll env t i) = Sleep"
  then show "poll_vidu_task env t j s =
        (Inr None, s\<lparr>clock := clock s + 600, vidu_polls := vidu_polls s + 120\<rparr>)"
    by (rule poll_timeout)
qed

theorem polling_budget_witness:
  "vidu_poll quiet_env [1] 0 = RequestRaises ConnectionError \<and>
   vidu_poll quiet_env [1] 1 = HttpReply 200 (Inr (ustr ''failed'', [])) \<and>
   poll_vidu_task quiet_env [1] [2] (boot False (\<lambda>n. False)) =
     (Inr None, (boot False (\<lambda>n. False))\<lparr>clock := 5, vidu_polls := 2\<rparr>)"
proof -
  let ?s = "boot False (\<lambda>n. False)"
  note budget = polling_budget [of quiet_env "[1]" "[2]" ?s]
  note transient = budget [THEN conjunct2, THEN conjunct2, THEN conjunct2, THEN conjunct1,
      rule_format, of 0 0]
  note failed = budget [THEN conjunct2, THEN conjunct2, THEN conjunct1, rule_format, of 1 "[]"]
  have a0: "vidu_poll quiet_env [1] 0 = RequestRaises ConnectionError"
    by (simp add: quiet_env_def)
  have a1: "vidu_poll quiet_env [1] 1 = HttpReply 200 (Inr (ustr ''failed'', []))"
    by (simp add: quiet_env_def)
  have tr: "poll_step (vidu_poll quiet_env [1] 0) = Sleep"
    using transient a0 by blast
  have pre: "\<forall>i<1. poll_step (vidu_poll quiet_env [1] i) = Sleep" using tr by simp
  have "poll_vidu_task quiet_env [1] [2] ?s =
        (Inr None, ?s\<lparr>clock := clock ?s + 5 * 1, vidu_polls := vidu_polls ?s + 1 + 1\<rparr>)"
  proof (rule failed, intro conjI)
    show "(1::nat) < 120" by simp
    show "\<forall>i<1. poll_step (vidu_poll quiet_env [1] i) = Sleep" by (rule pre)
    show "vidu_poll quiet_env [1] 1 = HttpReply 200 (Inr (ustr ''failed'', []))" by (rule a1)
  qed
  then have "poll_vidu_task quiet_env [1] [2] ?s = (Inr None, ?s\<lparr>clock := 5, vidu_polls := 2\<rparr>)"
    by (simp add: boot_def)
  then show ?thesis using a0 a1 by blast
qed

lemma poll_step_success:
  "poll_step (HttpReply 200 (Inr (ustr ''success'', cs))) =
     (case cs of [] \<Rightarrow> ReturnNone
      | c # cs' \<Rightarrow> if truthy_val (c ''url'') then Download (the (opt_str (c ''url''))) else ReturnNone)"
  by (simp add: poll_step_def)

lemma truthy_val_iff: "truthy_val v \<longleftrightarrow> (\<exists>u. v = Some (PyStr u) \<and> u \<noteq> [])"
  by (simp add: truthy_val_def split: option.splits jval.splits)

text \<open>
  C4, as amended. One status reply is classified as follows. It leads to the download of
  the artifact exactly when the status is 200, the state is \<^verbatim>\<open>success\<close> and the first
  creation carries a non-empty \<^verbatim>\<open>url\<close>. It makes the loop return \<^verbatim>\<open>None\<close> at once
  exactly when the state is \<^verbatim>\<open>failed\<close>, or the state is \<^verbatim>\<open>success\<close> with no creation
  or with a first creation lacking a usable \<^verbatim>\<open>url\<close>. Every other reply (a request that
  raises, a status other than 200, a body that does not decode, any other state) is
  pending: the loop sleeps and polls again.
\<close>

theorem poll_step_classification:
  "(poll_step reply = Download u \<longleftrightarrow>
      (\<exists>c cs. reply = HttpReply 200 (Inr (ustr ''success'', c # cs)) \<and>
               c ''url'' = Some (PyStr u) \<and> u \<noteq> [])) \<and>
   (poll_step reply = ReturnNone \<longleftrightarrow>
      (\<exists>cs. reply = HttpReply 200 (Inr (ustr ''failed'', cs))) \<or>
      reply = HttpReply 200 (Inr (ustr ''success'', [])) \<or>
      (\<exists>c cs. reply = HttpReply 200 (Inr (ustr ''success'', c # cs)) \<and> \<not> truthy_val (c ''url''))) \<and>
   (poll_step reply = Sleep \<longleftrightarrow>
      (\<exists>e. reply = RequestRaises e) \<or>
      (\<exists>code js. reply = HttpReply code js \<and> code \<noteq> 200) \<or>
      (\<exists>e. reply = HttpReply 200 (Inl e)) \<or>
      (\<exists>st cs. reply = HttpReply 200 (Inr (st, cs)) \<and> st \<noteq> ustr ''success'' \<and> st \<noteq> ustr ''failed''))"
proof (cases reply)
  case (RequestRaises e)
  then show ?thesis by (simp add: poll_step_def)
next
  case (HttpReply code js)
  show ?thesis
  proof (cases "code = 200")
    case False
    then show ?thesis using HttpReply by (simp add: poll_step_def)
  next
    case True
    show ?thesis
    proof (cases js)
      case (Inl e)
      then show ?thesis using HttpReply True by (simp add: poll_step_def)
    next
      case (Inr p)
      obtain st cs where p: "p = (st, cs)" by (cases p)
      have r: "reply = HttpReply 200 (Inr (st, cs))" using HttpReply True Inr p by simp
      consider (success) "st = ustr ''success''" | (failed) "st = ustr ''failed''"
        | (other) "st \<noteq> ustr ''success''" "st \<noteq> ustr ''failed''" by blast
      then show ?thesis
      proof cases
        case success
        show ?thesis
        proof (cases cs)
          case Nil
          then show ?thesis unfolding r success by (simp add: poll_step_success)
        next
          case (Cons c cs')
          show ?thesis
          proof (cases "truthy_val (c ''url'')")
            case True
            then obtain u' where u': "c ''url'' = Some (PyStr u')" "u' \<noteq> []"
              using truthy_val_iff by blast
            have "poll_step reply = Download u'"
              unfolding r success Cons using True u' by (simp add: poll_step_success opt_str_def)
            then show ?thesis using True u' unfolding r success Cons by auto
          next
            case False
            have nu: "\<not> (c ''url'' = Some (PyStr u) \<and> u \<noteq> [])"
              using False truthy_val_iff by blast
            have "poll_step reply = ReturnNone"
              unfolding r success Cons using False by (simp add: poll_step_success)
            then show ?thesis using False nu unfolding r success Cons by auto
          qed
        qed
      next
        case failed
        have "poll_step reply = ReturnNone" unfolding r failed by (simp add: poll_step_def)
        then show ?thesis unfolding r failed by simp
      next
        case other
        have "poll_step reply = Sleep" unfolding r using other by (simp add: poll_step_def)
        then show ?thesis unfolding r using other by simp
      qed
    qed
  qed
qed

theorem poll_step_classification_witness:
  "poll_step (HttpReply 200 (Inr (ustr ''success'', [[''url'' \<mapsto> PyStr (ustr ''http://v/1.mp4'')]]))) =
     Download (ustr ''http://v/1.mp4'') \<and>
   poll_step (HttpReply 200 (Inr (ustr ''failed'', []))) = ReturnNone \<and>
   poll_step (HttpReply 503 (Inl ConnectionError)) = Sleep"
proof -
  have "poll_step (HttpReply 200 (Inr (ustr ''success'', [[''url'' \<mapsto> PyStr (ustr ''http://v/1.mp4'')]]))) =
     Download (ustr ''http://v/1.mp4'')"
    using poll_step_classification
      [of "HttpReply 200 (Inr (ustr ''success'', [[''url'' \<mapsto> PyStr (ustr ''http://v/1.mp4'')]]))"
          "ustr ''http://v/1.mp4''"]
    by (simp add: ustr_def)
  moreover have "poll_step (HttpReply 200 (Inr (ustr ''failed'', []))) = ReturnNone"
    using poll_step_classification [of "HttpReply 200 (Inr (ustr ''failed'', []))"] by simp
  moreover have "poll_step (HttpReply 503 (Inl ConnectionError)) = Sleep"
    using poll_step_classification [of "HttpReply 503 (Inl ConnectionError)"] by simp
  ultimately show ?thesis by blast
qed

text \<open>
  C4 as stated fails: a \<^verbatim>\<open>success\<close> reply with no creation, or with a creation that has
  no \<^verbatim>\<open>url\<close>, is not pending. The loop returns \<^verbatim>\<open>None\<close> after that single request.
\<close>

theorem success_without_artifact_stops_polling:
  "poll_step (HttpReply 200 (Inr (ustr ''success'', []))) = ReturnNone \<and>
   poll_step (HttpReply 200 (Inr (ustr ''success'', [[''id'' \<mapsto> PyStr (ustr ''c1'')]]))) = ReturnNone \<and>
   poll_vidu_task (quiet_env\<lparr>vidu_poll := (\<lambda>task_id attempt. HttpReply 200 (Inr (ustr ''success'', [])))\<rparr>)
       [1] [2] (boot False (\<lambda>n. False)) =
     (Inr None, (boot False (\<lambda>n. False))\<lparr>vidu_polls := 1\<rparr>)"
proof -
  let ?env = "quiet_env\<lparr>vidu_poll := (\<lambda>task_id attempt. HttpReply 200 (Inr (ustr ''success'', [])))\<rparr>"
  have a: "poll_step (HttpReply 200 (Inr (ustr ''success'', []))) = ReturnNone"
    by (simp add: poll_step_def)
  have b: "poll_step (HttpReply 200 (Inr (ustr ''success'', [[''id'' \<mapsto> PyStr (ustr ''c1'')]]))) = ReturnNone"
    by (simp add: poll_step_def truthy_val_def)
  have n: "(120::nat) = Suc 119" by simp
  have v: "vidu_poll ?env [1] 0 = HttpReply 200 (Inr (ustr ''success'', []))" by simp
  have c: "poll_loop (Suc 119) 0 ?env [1] [2] (boot False (\<lambda>n. False)) =
           (Inr None, (boot False (\<lambda>n. False))\<lparr>vidu_polls := 1\<rparr>)"
    unfolding poll_loop.simps v a by (simp add: boot_def)
  show ?thesis using a b c unfolding poll_vidu_task_def n by blast
qed

section \<open>The job store and the fallback chain\<close>

lemmas store_defs =
  store_job_data_def get_job_data_ref_def get_job_data_def update_job_data_def
  redis_setex_def redis_get_def memory_set_def log_write_def bind_def return_def Let_def

lemma store_job_data_ok: "fst (store_job_data job_id d s) = Inr ()"
  by (simp add: store_defs split: prod.splits sum.splits)

lemma get_job_data_ref_ok: "\<exists>r. fst (get_job_data_ref job_id s) = Inr r"
  by (auto simp add: store_defs split: prod.splits sum.splits option.splits)

lemma get_job_data_ok: "\<exists>r. fst (get_job_data job_id s) = Inr r"
  by (auto simp add: store_defs split: prod.splits sum.splits option.splits)

lemma update_job_data_ok: "fst (update_job_data job_id u s) = Inr ()"
  by (auto simp add: store_defs split: prod.splits sum.splits option.splits)

lemma update_job_data_eq: "update_job_data job_id u s = (Inr (), snd (update_job_data job_id u s))"
  using update_job_data_ok [of job_id u s] by (cases "update_job_data job_id u s") simp

lemma put_falls_through:
  "redis_client s \<Longrightarrow> outage s (redis_calls s) \<Longrightarrow>
   memory (snd (store_job_data job_id d s)) = (memory s)(job_id \<mapsto> d) \<and>
   redis (snd (store_job_data job_id d s)) = redis s"
  by (simp add: store_defs)

lemma get_falls_through:
  "redis_client s \<Longrightarrow> outage s (redis_calls s) \<Longrightarrow>
   fst (get_job_data job_id s) = Inr (memory s job_id)"
  by (simp add: store_defs)

text \<open>
  C8, as amended. \<open>store_job_data\<close>, \<open>get_job_data\<close> and \<open>update_job_data\<close> never raise.
  When a Redis client exists and the call to the server fails, \<open>store_job_data\<close> writes
  the record to the in-process map and leaves Redis as it was, and \<open>get_job_data\<close>
  returns what the in-process map holds for the job.
\<close>

theorem store_calls_never_raise:
  "fst (store_job_data job_id d s) = Inr () \<and>
   (\<exists>r. fst (get_job_data job_id s) = Inr r) \<and>
   fst (update_job_data job_id u s) = Inr () \<and>
   (redis_client s \<and> outage s (redis_calls s) \<longrightarrow>
      memory (snd (store_job_data job_id d s)) = (memory s)(job_id \<mapsto> d) \<and>
      redis (snd (store_job_data job_id d s)) = redis s \<and>
      fst (get_job_data job_id s) = Inr (memory s job_id))"
  using store_job_data_ok get_job_data_ok update_job_data_ok put_falls_through get_falls_through
  by blast

theorem store_calls_never_raise_witness:
  "redis_client (boot True (\<lambda>n. True)) \<and> outage (boot True (\<lambda>n. True)) (redis_calls (boot True (\<lambda>n. True))) \<and>
   fst (store_job_data [1] (initial_job [99]) (boot True (\<lambda>n. True))) = Inr () \<and>
   memory (snd (store_job_data [1] (initial_job [99]) (boot True (\<lambda>n. True)))) [1] = Some (initial_job [99]) \<and>
   fst (get_job_data [1] (boot True (\<lambda>n. True))) = Inr None"
proof -
  let ?s = "boot True (\<lambda>n. True)"
  note t = store_calls_never_raise [of "[1]" "initial_job [99]" ?s Map.empty]
  have c: "redis_client ?s \<and> outage ?s (redis_calls ?s)" by (simp add: boot_def)
  have a: "fst (store_job_data [1] (initial_job [99]) ?s) = Inr ()" using t by (rule conjunct1)
  have f: "memory (snd (store_job_data [1] (initial_job [99]) ?s)) = (memory ?s)([1] \<mapsto> initial_job [99]) \<and>
      redis (snd (store_job_data [1] (initial_job [99]) ?s)) = redis ?s \<and>
      fst (get_job_data [1] ?s) = Inr (memory ?s [1])"
    using t [THEN conjunct2, THEN conjunct2, THEN conjunct2] c by (rule mp)
  have m: "memory (snd (store_job_data [1] (initial_job [99]) ?s)) [1] = Some (initial_job [99])"
    using f by simp
  have g: "fst (get_job_data [1] ?s) = Inr None" using f by (simp add: boot_def)
  show ?thesis using c a m g by blast
qed

text \<open>
  C8 as stated fails in its last part: an outage can make a job operation fail. The
  record below is written to Redis; the next call to the server fails, the read falls
  through to the in-process map, which has no entry, and \<open>get_status\<close> raises the 404
  error "Job ID not found" for a job that exists.
\<close>

theorem outage_hides_stored_job:
  "redis (snd (store_job_data [1] (initial_job (ustr ''cat'')) (boot True (\<lambda>n. n = 1)))) (redis_key [1]) =
     Some (initial_job (ustr ''cat'')) \<and>
   fst (get_status [1] (snd (store_job_data [1] (initial_job (ustr ''cat'')) (boot True (\<lambda>n. n = 1))))) =
     Inl (HTTPException 404 ''Job ID not found'')"
  by (simp add: store_defs boot_def get_status_def truthy_dict_def raise_def)



lemma get_job_data_found:
  "fst (get_job_data job_id s) = Inr (Some x) \<Longrightarrow>
   redis s (redis_key job_id) = Some x \<or> memory s job_id = Some x"
  by (auto simp add: store_defs split: prod.splits sum.splits option.splits if_splits)

lemma update_job_data_noop:
  assumes "fst (get_job_data job_id s) = Inr cur" and "\<not> truthy_dict cur"
  shows "redis (snd (update_job_data job_id u s)) = redis s \<and>
         memory (snd (update_job_data job_id u s)) = memory s \<and>
         writes (snd (update_job_data job_id u s)) = writes s"
  using assms
  by (auto simp add: store_defs split: prod.splits sum.splits option.splits if_splits)

lemma update_job_data_merge:
  assumes "fst (get_job_data job_id s) = Inr (Some x)" and "x \<noteq> Map.empty"
  shows "(writes (snd (update_job_data job_id u s)) = writes s @ [(job_id, x ++ u)] \<or>
          writes (snd (update_job_data job_id u s)) = writes s @ [(job_id, x ++ u), (job_id, x ++ u)]) \<and>
         (redis (snd (update_job_data job_id u s)) = redis s \<or>
          redis (snd (update_job_data job_id u s)) = (redis s)(redis_key job_id \<mapsto> x ++ u)) \<and>
         (memory (snd (update_job_data job_id u s)) = memory s \<or>
          memory (snd (update_job_data job_id u s)) = (memory s)(job_id \<mapsto> x ++ u)) \<and>
         (redis (snd (update_job_data job_id u s)) (redis_key job_id) = Some (x ++ u) \<or>
          memory (snd (update_job_data job_id u s)) job_id = Some (x ++ u))"
  using assms
  by (auto simp add: store_defs truthy_dict_def split: prod.splits sum.splits option.splits if_splits)

lemma update_job_data_frame:
  "redis_client (snd (update_job_data job_id u s)) = redis_client s \<and>
   outage (snd (update_job_data job_id u s)) = outage s \<and>
   fs (snd (update_job_data job_id u s)) = fs s \<and>
   tasks (snd (update_job_data job_id u s)) = tasks s \<and>
   clock (snd (update_job_data job_id u s)) = clock s \<and>
   vidu_polls (snd (update_job_data job_id u s)) = vidu_polls s"
  by (auto simp add: store_defs split: prod.splits sum.splits option.splits if_splits)

lemma update_job_data_summary:
  "\<exists>x ws. writes (snd (update_job_data job_id u s)) = writes s @ ws \<and>
          set ws \<subseteq> {(job_id, x ++ u)} \<and>
          (redis s (redis_key job_id) = Some x \<or> memory s job_id = Some x \<or>
             (ws = [] \<and> redis (snd (update_job_data job_id u s)) = redis s \<and>
              memory (snd (update_job_data job_id u s)) = memory s)) \<and>
          (redis (snd (update_job_data job_id u s)) = redis s \<or>
           redis (snd (update_job_data job_id u s)) = (redis s)(redis_key job_id \<mapsto> x ++ u)) \<and>
          (memory (snd (update_job_data job_id u s)) = memory s \<or>
           memory (snd (update_job_data job_id u s)) = (memory s)(job_id \<mapsto> x ++ u))"
proof -
  obtain cur where cur: "fst (get_job_data job_id s) = Inr cur"
    using get_job_data_ok by blast
  show ?thesis
  proof (cases "truthy_dict cur")
    case False
    note n = update_job_data_noop [OF cur False, of u]
    show ?thesis
      by (rule exI [of _ Map.empty], rule exI [of _ "[]"]) (simp add: n)
  next
    case True
    then obtain x where x: "cur = Some x" "x \<noteq> Map.empty"
      by (auto simp add: truthy_dict_def split: option.splits)
    note m = update_job_data_merge [OF cur [unfolded x(1)] x(2), of u]
    note f = get_job_data_found [OF cur [unfolded x(1)]]
    from m have "writes (snd (update_job_data job_id u s)) = writes s @ [(job_id, x ++ u)] \<or>
          writes (snd (update_job_data job_id u s)) = writes s @ [(job_id, x ++ u), (job_id, x ++ u)]"
      by (rule conjunct1)
    then obtain ws where ws: "writes (snd (update_job_data job_id u s)) = writes s @ ws"
        "set ws \<subseteq> {(job_id, x ++ u)}"
      by (elim disjE) auto
    show ?thesis
      apply (rule exI [of _ x], rule exI [of _ ws])
      using ws f m by blast
  qed
qed


lemma update_job_data_upd: "update_job_data job_id u s = (Inr (), upd job_id u s)"
  unfolding upd_def by (rule update_job_data_eq)

lemma bind_update: "bind (update_job_data job_id u) f s = f () (upd job_id u s)"
  by (simp add: bind_def update_job_data_upd)

lemma same_store_refl: "same_store s s"
  by (simp add: same_store_def)

lemma same_store_trans: "same_store s s1 \<Longrightarrow> same_store s1 s2 \<Longrightarrow> same_store s s2"
  by (simp add: same_store_def)

lemma run_same_left: "same_store s s1 \<Longrightarrow> run job_id us s1 s2 \<Longrightarrow> run job_id us s s2"
  by (cases us) (auto intro: same_store_trans)

lemma run_same_right: "run job_id us s s1 \<Longrightarrow> same_store s1 s2 \<Longrightarrow> run job_id us s s2"
  by (induction us arbitrary: s) (auto intro: same_store_trans)

lemma run_append: "run job_id us s s1 \<Longrightarrow> run job_id vs s1 s2 \<Longrightarrow> run job_id (us @ vs) s s2"
proof (induction us arbitrary: s)
  case Nil
  then show ?case by (simp add: run_same_left)
next
  case (Cons u us)
  then show ?case by auto
qed

lemma run_step: "same_store s s1 \<Longrightarrow> run job_id [u] s (upd job_id u s1)"
  by (auto intro: same_store_refl)

lemma run_update: "run job_id [u] s (upd job_id u s)"
  by (rule run_step [OF same_store_refl])

lemma run_nil: "run job_id [] s s' \<longleftrightarrow> same_store s s'"
  by simp

declare run.simps [simp del]

lemma download_same_store: "same_store s (snd (download_vidu_video env url job_id s))"
  by (simp add: download_vidu_video_def try_except_def bind_def write_file_def return_def raise_def
      Let_def same_store_def split: sum.splits)

lemma poll_loop_same_store: "same_store s (snd (poll_loop n a env t j s))"
proof (induction n arbitrary: a s)
  case 0
  show ?case by (simp add: same_store_refl)
next
  case (Suc n)
  show ?case
  proof (cases "poll_step (vidu_poll env t a)")
    case Sleep
    have "same_store (snd (asyncio_sleep 5 (s\<lparr>vidu_polls := Suc (vidu_polls s)\<rparr>)))
            (snd (poll_loop n (Suc a) env t j (snd (asyncio_sleep 5 (s\<lparr>vidu_polls := Suc (vidu_polls s)\<rparr>)))))"
      by (rule Suc.IH)
    moreover have "same_store s (snd (asyncio_sleep 5 (s\<lparr>vidu_polls := Suc (vidu_polls s)\<rparr>)))"
      by (simp add: same_store_def asyncio_sleep_def)
    ultimately show ?thesis using Sleep by (simp add: same_store_trans)
  next
    case ReturnNone
    then show ?thesis by (simp add: same_store_def)
  next
    case (Download u)
    have "same_store (s\<lparr>vidu_polls := Suc (vidu_polls s)\<rparr>)
            (snd (download_vidu_video env u j (s\<lparr>vidu_polls := Suc (vidu_polls s)\<rparr>)))"
      by (rule download_same_store)
    moreover have "same_store s (s\<lparr>vidu_polls := Suc (vidu_polls s)\<rparr>)"
      by (simp add: same_store_def)
    ultimately show ?thesis using Download by (simp add: same_store_trans)
  qed
qed

lemma poll_same_store: "same_store s (snd (poll_vidu_task env t j s))"
  unfolding poll_vidu_task_def by (rule poll_loop_same_store)

lemma copy2_same_store: "same_store s (snd (shutil_copy2 failure src dst s))"
  by (simp add: shutil_copy2_def write_file_def same_store_def split: option.splits)

lemma predict_same_store: "same_store s (snd (gradio_predict env prompt s))"
  by (simp add: gradio_predict_def same_store_def split: sum.splits option.splits prod.splits)

lemma mock_attempt_shape:
  "(\<forall>e. fst (mock_attempt env job_id prompt s) = Inl e \<longrightarrow>
        same_store s (snd (mock_attempt env job_id prompt s))) \<and>
   (\<forall>a. fst (mock_attempt env job_id prompt s) = Inr a \<longrightarrow>
        (\<exists>m url path. run job_id [completed_update m url path] s (snd (mock_attempt env job_id prompt s))))"
proof (cases "os_path_exists s (ustr ''./videos/mock_video.mp4'')")
  case False
  then show ?thesis by (simp add: mock_attempt_def Let_def raise_def same_store_refl)
next
  case True
  let ?c = "shutil_copy2 (mock_copy_error env) (ustr ''./videos/mock_video.mp4'') (job_video_path job_id) s"
  have ss: "same_store s (snd ?c)" by (rule copy2_same_store)
  show ?thesis
  proof (cases "fst ?c")
    case (Inl e)
    then have "mock_attempt env job_id prompt s = (Inl e, snd ?c)"
      using True by (cases ?c) (simp add: mock_attempt_def Let_def bind_def)
    then show ?thesis using ss by simp
  next
    case (Inr a)
    then have "mock_attempt env job_id prompt s =
      (Inr (), upd job_id (completed_update (9989 # ustr '' Demo video ready (using placeholder)'')
                        (ustr ''/api/download/'' @ job_id) (job_video_path job_id)) (snd ?c))"
      using True by (cases ?c) (simp add: mock_attempt_def Let_def bind_def update_job_data_upd)
    moreover have "run job_id [completed_update (9989 # ustr '' Demo video ready (using placeholder)'')
                        (ustr ''/api/download/'' @ job_id) (job_video_path job_id)] s
        (upd job_id (completed_update (9989 # ustr '' Demo video ready (using placeholder)'')
                        (ustr ''/api/download/'' @ job_id) (job_video_path job_id)) (snd ?c))"
      using ss by (rule run_step)
    ultimately show ?thesis by auto
  qed
qed


lemma use_mock_ok: "fst (use_mock_video_fallback env job_id prompt s) = Inr ()"
  by (cases "mock_attempt env job_id prompt s")
     (auto simp add: use_mock_video_fallback_def try_except_def update_job_data_upd split: sum.splits)

lemma use_mock_shape:
  "\<exists>t. final_update t \<and> run job_id [t] s (snd (use_mock_video_fallback env job_id prompt s)) \<and>
       ((\<exists>e. fst (mock_attempt env job_id prompt s) = Inl e) \<longrightarrow> t = failed_update)"
proof (cases "fst (mock_attempt env job_id prompt s)")
  case (Inl e)
  then have ss: "same_store s (snd (mock_attempt env job_id prompt s))"
    using mock_attempt_shape by blast
  have "use_mock_video_fallback env job_id prompt s =
        (Inr (), upd job_id failed_update (snd (mock_attempt env job_id prompt s)))"
    using Inl by (cases "mock_attempt env job_id prompt s")
      (simp add: use_mock_video_fallback_def try_except_def update_job_data_upd)
  moreover have "run job_id [failed_update] s (upd job_id failed_update (snd (mock_attempt env job_id prompt s)))"
    using ss by (rule run_step)
  ultimately show ?thesis by (auto simp add: final_update_def)
next
  case (Inr a)
  then obtain m url path where
    r: "run job_id [completed_update m url path] s (snd (mock_attempt env job_id prompt s))"
    using mock_attempt_shape by blast
  have "use_mock_video_fallback env job_id prompt s = mock_attempt env job_id prompt s"
    using Inr by (cases "mock_attempt env job_id prompt s")
      (simp add: use_mock_video_fallback_def try_except_def)
  then show ?thesis using r Inr by (auto simp add: final_update_def)
qed

lemma hf_attempt_unfold:
  "hf_attempt env job_id prompt s =
     (case hf_login env of
        Some e \<Rightarrow> (Inl e, s)
      | None \<Rightarrow>
          (case gradio_predict env prompt (upd job_id hf_message_update s) of
             (Inl e, s2) \<Rightarrow> (Inl e, s2)
           | (Inr temp, s2) \<Rightarrow>
               if os_path_exists s2 temp then
                 (case shutil_copy2 (hf_copy_error env) temp (job_video_path job_id) s2 of
                    (Inl e, s3) \<Rightarrow> (Inl e, s3)
                  | (Inr a, s3) \<Rightarrow>
                      (Inr (), upd job_id (completed_update (9989 # ustr '' Video generated successfully!'')
                                 (ustr ''/api/download/'' @ job_id) (job_video_path job_id)) s3))
               else (Inl (Exception ''HuggingFace video not found''), s2)))"
  by (simp add: hf_attempt_def Let_def bind_update raise_def bind_def update_job_data_upd
      split: option.splits prod.splits sum.splits)

lemma hf_attempt_shape:
  "(\<forall>e. fst (hf_attempt env job_id prompt s) = Inl e \<longrightarrow>
        (run job_id [] s (snd (hf_attempt env job_id prompt s)) \<or>
         run job_id [hf_message_update] s (snd (hf_attempt env job_id prompt s)))) \<and>
   (\<forall>a. fst (hf_attempt env job_id prompt s) = Inr a \<longrightarrow>
        (\<exists>m url path. run job_id [hf_message_update, completed_update m url path] s
                         (snd (hf_attempt env job_id prompt s))))"
proof (cases "hf_login env")
  case (Some e)
  then have "hf_attempt env job_id prompt s = (Inl e, s)" by (simp add: hf_attempt_unfold)
  then show ?thesis by (simp add: run_nil same_store_refl)
next
  case None
  let ?s1 = "upd job_id hf_message_update s"
  obtain r2 s2 where g: "gradio_predict env prompt ?s1 = (r2, s2)" by (cases "gradio_predict env prompt ?s1")
  have ss2: "same_store ?s1 s2" using predict_same_store [of ?s1 env prompt] g by simp
  have r1: "run job_id [hf_message_update] s s2" using run_update ss2 by (rule run_same_right)
  show ?thesis
  proof (cases r2)
    case (Inl e)
    then have "hf_attempt env job_id prompt s = (Inl e, s2)"
      using None g by (simp add: hf_attempt_unfold)
    then show ?thesis using r1 by auto
  next
    case (Inr temp)
    show ?thesis
    proof (cases "os_path_exists s2 temp")
      case False
      then have "hf_attempt env job_id prompt s = (Inl (Exception ''HuggingFace video not found''), s2)"
        using None g Inr by (simp add: hf_attempt_unfold)
      then show ?thesis using r1 by auto
    next
      case True
      obtain r3 s3 where c: "shutil_copy2 (hf_copy_error env) temp (job_video_path job_id) s2 = (r3, s3)"
        by (cases "shutil_copy2 (hf_copy_error env) temp (job_video_path job_id) s2")
      have ss3: "same_store s2 s3"
        using copy2_same_store [of s2 "hf_copy_error env" temp "job_video_path job_id"] c by simp
      show ?thesis
      proof (cases r3)
        case (Inl e)
        then have "hf_attempt env job_id prompt s = (Inl e, s3)"
          using None g Inr True c by (simp add: hf_attempt_unfold)
        moreover have "run job_id [hf_message_update] s s3"
          using r1 ss3 by (rule run_same_right)
        ultimately show ?thesis by auto
      next
        case (Inr a)
        let ?u = "completed_update (9989 # ustr '' Video generated successfully!'')
                                 (ustr ''/api/download/'' @ job_id) (job_video_path job_id)"
        have "hf_attempt env job_id prompt s = (Inr (), upd job_id ?u s3)"
          using None g \<open>r2 = Inr temp\<close> True c Inr by (simp add: hf_attempt_unfold)
        moreover have "run job_id ([hf_message_update] @ [?u]) s (upd job_id ?u s3)"
        proof (rule run_append)
          show "run job_id [hf_message_update] s s3" using r1 ss3 by (rule run_same_right)
          show "run job_id [?u] s3 (upd job_id ?u s3)" by (rule run_update)
        qed
        then have "run job_id [hf_message_update, ?u] s (upd job_id ?u s3)" by simp
        ultimately show ?thesis by auto
      qed
    qed
  qed
qed


lemma vidu_attempt_cases:
  "(\<exists>e. vidu_attempt env job_id prompt s = (Inl e, upd job_id connecting_update s)) \<or>
   (\<exists>t. vidu_attempt env job_id prompt s =
      (case poll_vidu_task env t job_id (upd job_id connecting_update s) of
         (Inl e, s2) \<Rightarrow> (Inl e, s2)
       | (Inr video_path, s2) \<Rightarrow>
           if truthy_str video_path then
             (Inr (), upd job_id (completed_update (9989 # ustr '' Video generated successfully!'')
                        (PUBLIC_BASE_URL @ ustr ''/api/download/'' @ job_id) (the video_path)) s2)
           else (Inl (Exception ''Vidu API failed''), s2)))"
proof (cases "truthy_str (vidu_api_key env)")
  case False
  then show ?thesis by (simp add: vidu_attempt_def bind_update raise_def)
next
  case key: True
  show ?thesis
  proof (cases "vidu_post env prompt")
    case (Inl e)
    then show ?thesis using key by (simp add: vidu_attempt_def bind_update raise_def)
  next
    case (Inr p)
    obtain status_code js where p: "p = (status_code, js)" by (cases p)
    show ?thesis
    proof (cases "status_code = 200")
      case False
      then show ?thesis using key Inr p by (simp add: vidu_attempt_def bind_update raise_def)
    next
      case ok: True
      show ?thesis
      proof (cases js)
        case (Inl e)
        then show ?thesis using key Inr p ok by (simp add: vidu_attempt_def bind_update raise_def)
      next
        case task: (Inr task_id)
        show ?thesis
        proof (cases "truthy_str task_id")
          case False
          then show ?thesis using key Inr p ok task
            by (simp add: vidu_attempt_def bind_update raise_def)
        next
          case True
          obtain r2 s2 where
            q: "poll_vidu_task env (the task_id) job_id (upd job_id connecting_update s) = (r2, s2)"
            by (cases "poll_vidu_task env (the task_id) job_id (upd job_id connecting_update s)")
          have "vidu_attempt env job_id prompt s =
            (case poll_vidu_task env (the task_id) job_id (upd job_id connecting_update s) of
               (Inl e, s2) \<Rightarrow> (Inl e, s2)
             | (Inr video_path, s2) \<Rightarrow>
                 if truthy_str video_path then
                   (Inr (), upd job_id (completed_update (9989 # ustr '' Video generated successfully!'')
                              (PUBLIC_BASE_URL @ ustr ''/api/download/'' @ job_id) (the video_path)) s2)
                 else (Inl (Exception ''Vidu API failed''), s2))"
            using key Inr p ok task True q
            by (cases r2)
               (simp_all add: vidu_attempt_def bind_update raise_def bind_def update_job_data_upd)
          then show ?thesis by blast
        qed
      qed
    qed
  qed
qed

lemma vidu_attempt_shape:
  "(\<forall>e. fst (vidu_attempt env job_id prompt s) = Inl e \<longrightarrow>
        run job_id [connecting_update] s (snd (vidu_attempt env job_id prompt s))) \<and>
   (\<forall>a. fst (vidu_attempt env job_id prompt s) = Inr a \<longrightarrow>
        (\<exists>m url path. run job_id [connecting_update, completed_update m url path] s
                         (snd (vidu_attempt env job_id prompt s))))"
proof -
  let ?s1 = "upd job_id connecting_update s"
  have r1: "run job_id [connecting_update] s ?s1" by (rule run_update)
  from vidu_attempt_cases [of env job_id prompt s] show ?thesis
  proof (elim disjE exE)
    fix e assume "vidu_attempt env job_id prompt s = (Inl e, ?s1)"
    then show ?thesis using r1 by simp
  next
    fix t
    assume v: "vidu_attempt env job_id prompt s =
      (case poll_vidu_task env t job_id ?s1 of
         (Inl e, s2) \<Rightarrow> (Inl e, s2)
       | (Inr video_path, s2) \<Rightarrow>
           if truthy_str video_path then
             (Inr (), upd job_id (completed_update (9989 # ustr '' Video generated successfully!'')
                        (PUBLIC_BASE_URL @ ustr ''/api/download/'' @ job_id) (the video_path)) s2)
           else (Inl (Exception ''Vidu API failed''), s2))"
    obtain r2 s2 where p: "poll_vidu_task env t job_id ?s1 = (r2, s2)"
      by (cases "poll_vidu_task env t job_id ?s1")
    have ss2: "same_store ?s1 s2" using poll_same_store [of ?s1 env t job_id] p by simp
    have r2': "run job_id [connecting_update] s s2" using r1 ss2 by (rule run_same_right)
    show ?thesis
    proof (cases r2)
      case (Inl e)
      then have "vidu_attempt env job_id prompt s = (Inl e, s2)" using v p by simp
      then show ?thesis using r2' by simp
    next
      case (Inr video_path)
      show ?thesis
      proof (cases "truthy_str video_path")
        case False
        then have "vidu_attempt env job_id prompt s = (Inl (Exception ''Vidu API failed''), s2)"
          using v p Inr by simp
        then show ?thesis using r2' by simp
      next
        case True
        let ?u = "completed_update (9989 # ustr '' Video generated successfully!'')
                        (PUBLIC_BASE_URL @ ustr ''/api/download/'' @ job_id) (the video_path)"
        have e: "vidu_attempt env job_id prompt s = (Inr (), upd job_id ?u s2)"
          using v p Inr True by simp
        have "run job_id ([connecting_update] @ [?u]) s (upd job_id ?u s2)"
          using r2' run_update by (rule run_append)
        then have "run job_id [connecting_update, ?u] s (upd job_id ?u s2)" by simp
        then show ?thesis using e by auto
      qed
    qed
  qed
qed

lemma use_hf_ok: "fst (use_huggingface_fallback env job_id prompt s) = Inr ()"
  by (cases "hf_attempt env job_id prompt s")
     (auto simp add: use_huggingface_fallback_def try_except_def use_mock_ok split: sum.splits)

lemma vgp_ok: "fst (video_generation_process env job_id prompt s) = Inr ()"
  by (cases "vidu_attempt env job_id prompt s")
     (auto simp add: video_generation_process_def try_except_def use_hf_ok split: sum.splits)

lemma hf_shapeI:
  "mid = [] \<or> mid = [hf_message_update] \<Longrightarrow> final_update t \<Longrightarrow> run job_id (mid @ [t]) s s' \<Longrightarrow>
   (C \<Longrightarrow> t = failed_update) \<Longrightarrow>
   \<exists>mid t. (mid = [] \<or> mid = [hf_message_update]) \<and> final_update t \<and>
     run job_id (mid @ [t]) s s' \<and> (C \<longrightarrow> t = failed_update)"
  by blast

lemma vgp_shapeI:
  "mid = [] \<or> mid = [hf_message_update] \<Longrightarrow> final_update t \<Longrightarrow>
   run job_id (connecting_update # mid @ [t]) s s' \<Longrightarrow>
   (C \<Longrightarrow> t = failed_update) \<Longrightarrow>
   \<exists>mid t. (mid = [] \<or> mid = [hf_message_update]) \<and> final_update t \<and>
     run job_id (connecting_update # mid @ [t]) s s' \<and> (C \<longrightarrow> t = failed_update)"
  by blast

lemma use_hf_shape:
  "\<exists>mid t. (mid = [] \<or> mid = [hf_message_update]) \<and> final_update t \<and>
     run job_id (mid @ [t]) s (snd (use_huggingface_fallback env job_id prompt s)) \<and>
     ((\<exists>e. fst (hf_attempt env job_id prompt s) = Inl e) \<and>
      (\<exists>e. fst (mock_attempt env job_id prompt (snd (hf_attempt env job_id prompt s))) = Inl e)
        \<longrightarrow> t = failed_update)"
proof (cases "fst (hf_attempt env job_id prompt s)")
  case (Inl e)
  let ?s1 = "snd (hf_attempt env job_id prompt s)"
  have u: "use_huggingface_fallback env job_id prompt s = use_mock_video_fallback env job_id prompt ?s1"
    using Inl by (cases "hf_attempt env job_id prompt s")
      (simp add: use_huggingface_fallback_def try_except_def)
  from use_mock_shape [of job_id ?s1 env prompt] obtain t where
    t1: "final_update t" and
    t2: "run job_id [t] ?s1 (snd (use_mock_video_fallback env job_id prompt ?s1))" and
    t3: "(\<exists>e. fst (mock_attempt env job_id prompt ?s1) = Inl e) \<longrightarrow> t = failed_update"
    by (elim exE conjE)
  have m: "run job_id [] s ?s1 \<or> run job_id [hf_message_update] s ?s1"
    using Inl hf_attempt_shape [of env job_id prompt s, THEN conjunct1] by simp
  then obtain mid where mid: "mid = [] \<or> mid = [hf_message_update]" "run job_id mid s ?s1"
    by (elim disjE) fast+
  have r: "run job_id (mid @ [t]) s (snd (use_huggingface_fallback env job_id prompt s))"
    unfolding u using mid(2) t2 by (rule run_append)
  show ?thesis using mid(1) t1 r
  proof (rule hf_shapeI)
    assume "(\<exists>e. fst (hf_attempt env job_id prompt s) = Inl e) \<and>
      (\<exists>e. fst (mock_attempt env job_id prompt (snd (hf_attempt env job_id prompt s))) = Inl e)"
    then show "t = failed_update" using t3 by simp
  qed
next
  case (Inr a)
  from hf_attempt_shape [of env job_id prompt s, THEN conjunct2] Inr obtain m url path where
    r: "run job_id [hf_message_update, completed_update m url path] s (snd (hf_attempt env job_id prompt s))"
    by auto
  have u: "use_huggingface_fallback env job_id prompt s = hf_attempt env job_id prompt s"
    using Inr by (cases "hf_attempt env job_id prompt s")
      (simp add: use_huggingface_fallback_def try_except_def)
  have f: "final_update (completed_update m url path)" by (auto simp add: final_update_def)
  have r': "run job_id ([hf_message_update] @ [completed_update m url path]) s
          (snd (use_huggingface_fallback env job_id prompt s))"
    unfolding u using r by simp
  have mid: "[hf_message_update] = [] \<or> [hf_message_update] = [hf_message_update]" by simp
  show ?thesis using mid f r'
  proof (rule hf_shapeI)
    assume "(\<exists>e. fst (hf_attempt env job_id prompt s) = Inl e) \<and>
      (\<exists>e. fst (mock_attempt env job_id prompt (snd (hf_attempt env job_id prompt s))) = Inl e)"
    then show "completed_update m url path = failed_update" using Inr by simp
  qed
qed

lemma vgp_shape:
  "\<exists>mid t. (mid = [] \<or> mid = [hf_message_update]) \<and> final_update t \<and>
     run job_id (connecting_update # mid @ [t]) s (snd (video_generation_process env job_id prompt s)) \<and>
     ((\<exists>e. fst (vidu_attempt env job_id prompt s) = Inl e) \<and>
      (\<exists>e. fst (hf_attempt env job_id prompt (snd (vidu_attempt env job_id prompt s))) = Inl e) \<and>
      (\<exists>e. fst (mock_attempt env job_id prompt
                 (snd (hf_attempt env job_id prompt (snd (vidu_attempt env job_id prompt s))))) = Inl e)
        \<longrightarrow> t = failed_update)"
proof (cases "fst (vidu_attempt env job_id prompt s)")
  case (Inl e)
  let ?s1 = "snd (vidu_attempt env job_id prompt s)"
  have u: "video_generation_process env job_id prompt s = use_huggingface_fallback env job_id prompt ?s1"
    using Inl by (cases "vidu_attempt env job_id prompt s")
      (simp add: video_generation_process_def try_except_def)
  have r1: "run job_id [connecting_update] s ?s1"
    using Inl vidu_attempt_shape [of env job_id prompt s, THEN conjunct1] by simp
  from use_hf_shape [of job_id ?s1 env prompt] obtain mid t where
    t1: "mid = [] \<or> mid = [hf_message_update]" and t2: "final_update t" and
    t3: "run job_id (mid @ [t]) ?s1 (snd (use_huggingface_fallback env job_id prompt ?s1))" and
    t4: "(\<exists>e. fst (hf_attempt env job_id prompt ?s1) = Inl e) \<and>
         (\<exists>e. fst (mock_attempt env job_id prompt (snd (hf_attempt env job_id prompt ?s1))) = Inl e)
          \<longrightarrow> t = failed_update"
    by (elim exE conjE)
  have "run job_id ([connecting_update] @ (mid @ [t])) s (snd (video_generation_process env job_id prompt s))"
    unfolding u using r1 t3 by (rule run_append)
  then have r: "run job_id (connecting_update # mid @ [t]) s (snd (video_generation_process env job_id prompt s))"
    by simp
  show ?thesis using t1 t2 r
  proof (rule vgp_shapeI)
    assume "(\<exists>e. fst (vidu_attempt env job_id prompt s) = Inl e) \<and>
      (\<exists>e. fst (hf_attempt env job_id prompt ?s1) = Inl e) \<and>
      (\<exists>e. fst (mock_attempt env job_id prompt (snd (hf_attempt env job_id prompt ?s1))) = Inl e)"
    then show "t = failed_update" using t4 by simp
  qed
next
  case (Inr a)
  from vidu_attempt_shape [of env job_id prompt s, THEN conjunct2] Inr obtain m url path where
    r: "run job_id [connecting_update, completed_update m url path] s (snd (vidu_attempt env job_id prompt s))"
    by auto
  have u: "video_generation_process env job_id prompt s = vidu_attempt env job_id prompt s"
    using Inr by (cases "vidu_attempt env job_id prompt s")
      (simp add: video_generation_process_def try_except_def)
  have f: "final_update (completed_update m url path)" by (auto simp add: final_update_def)
  have r': "run job_id (connecting_update # [] @ [completed_update m url path]) s
          (snd (video_generation_process env job_id prompt s))"
    unfolding u using r by simp
  have mid: "([]::job list) = [] \<or> [] = [hf_message_update]" by simp
  show ?thesis using mid f r'
  proof (rule vgp_shapeI)
    assume "(\<exists>e. fst (vidu_attempt env job_id prompt s) = Inl e) \<and>
      (\<exists>e. fst (hf_attempt env job_id prompt (snd (vidu_attempt env job_id prompt s))) = Inl e) \<and>
      (\<exists>e. fst (mock_attempt env job_id prompt
                 (snd (hf_attempt env job_id prompt (snd (vidu_attempt env job_id prompt s))))) = Inl e)"
    then show "completed_update m url path = failed_update" using Inr by simp
  qed
qed


lemma status_literals [simp]:
  "ustr ''completed'' \<noteq> ustr ''processing''" "ustr ''error'' \<noteq> ustr ''processing''"
  "ustr ''processing'' \<noteq> ustr ''completed''" "ustr ''processing'' \<noteq> ustr ''error''"
  "ustr ''error'' \<noteq> ustr ''completed''" "ustr ''completed'' \<noteq> ustr ''error''"
  by (simp_all add: ustr_def)

lemma terminal_not_processing: "is_terminal r \<Longrightarrow> \<not> is_processing r"
  by (auto simp add: is_terminal_def is_processing_def)

lemma no_regress_append:
  "no_regress (xs @ ys) \<longleftrightarrow>
     no_regress xs \<and> no_regress ys \<and>
     (\<forall>x\<in>set xs. is_terminal x \<longrightarrow> (\<forall>y\<in>set ys. \<not> is_processing y))"
  by (induction xs) (auto simp add: list_all_iff)

lemma no_regress_const: "set xs \<subseteq> {v} \<Longrightarrow> no_regress xs"
  by (induction xs) (auto simp add: list_all_iff terminal_not_processing)

lemma no_regress_processing: "\<forall>r\<in>set xs. is_processing r \<Longrightarrow> no_regress xs"
  by (induction xs) (auto simp add: list_all_iff dest: terminal_not_processing)

lemma no_regress_terminal: "\<forall>r\<in>set xs. is_terminal r \<Longrightarrow> no_regress xs"
  by (induction xs) (auto simp add: list_all_iff dest: terminal_not_processing)

lemma no_regress_phases:
  assumes a: "\<forall>r\<in>set a. is_processing r" and b: "set b \<subseteq> {v}" and c: "\<forall>r\<in>set c. is_terminal r"
  shows "no_regress (a @ b @ c)"
proof -
  have bc: "no_regress (b @ c)"
    unfolding no_regress_append
    using no_regress_const [OF b] no_regress_terminal [OF c] c terminal_not_processing by blast
  show ?thesis
    unfolding no_regress_append [of a]
    using no_regress_processing [OF a] bc a terminal_not_processing by blast
qed

lemma upd_summary:
  "\<exists>x ws. writes (upd job_id u s) = writes s @ ws \<and>
          set ws \<subseteq> {(job_id, x ++ u)} \<and>
          (redis s (redis_key job_id) = Some x \<or> memory s job_id = Some x \<or>
             (ws = [] \<and> redis (upd job_id u s) = redis s \<and> memory (upd job_id u s) = memory s)) \<and>
          (redis (upd job_id u s) = redis s \<or>
           redis (upd job_id u s) = (redis s)(redis_key job_id \<mapsto> x ++ u)) \<and>
          (memory (upd job_id u s) = memory s \<or>
           memory (upd job_id u s) = (memory s)(job_id \<mapsto> x ++ u))"
  unfolding upd_def by (rule update_job_data_summary)

lemma run_writes:
  "run job_id us s s' \<Longrightarrow>
   \<exists>wss. writes s' = writes s @ concat wss \<and>
         list_all2 (\<lambda>u ws. \<exists>x. set ws \<subseteq> {(job_id, x ++ u)}) us wss"
proof (induction us arbitrary: s)
  case Nil
  then have "writes s' = writes s" by (simp add: run_nil same_store_def)
  then show ?case by simp
next
  case (Cons u us)
  from Cons.prems obtain s1 where s1: "same_store s s1" "run job_id us (upd job_id u s1) s'"
    by (auto simp add: run.simps)
  from Cons.IH [OF s1(2)] obtain wss where
    wss: "writes s' = writes (upd job_id u s1) @ concat wss"
         "list_all2 (\<lambda>u ws. \<exists>x. set ws \<subseteq> {(job_id, x ++ u)}) us wss"
    by blast
  from upd_summary [of job_id u s1] obtain x ws where
    ws: "writes (upd job_id u s1) = writes s1 @ ws" "set ws \<subseteq> {(job_id, x ++ u)}"
    by blast
  have w: "writes s1 = writes s" using s1(1) by (simp add: same_store_def)
  have "writes s' = writes s @ concat (ws # wss)" using wss(1) ws(1) w by simp
  moreover have "list_all2 (\<lambda>u ws. \<exists>x. set ws \<subseteq> {(job_id, x ++ u)}) (u # us) (ws # wss)"
    using wss(2) ws(2) by auto
  ultimately show ?case by blast
qed


lemma update_status_processing: "is_processing (x ++ connecting_update)"
  by (simp add: is_processing_def connecting_update_def)

lemma update_status_terminal: "final_update t \<Longrightarrow> is_terminal (x ++ t)"
  by (auto simp add: is_terminal_def final_update_def failed_update_def completed_update_def)

lemma vgp_writes:
  "\<exists>a b c v. writes (snd (video_generation_process env job_id prompt s)) = writes s @ a @ b @ c \<and>
     (\<forall>w\<in>set (a @ b @ c). fst w = job_id) \<and>
     (\<forall>w\<in>set a. is_processing (snd w)) \<and> set (map snd b) \<subseteq> {v} \<and>
     (\<forall>w\<in>set c. is_terminal (snd w))"
proof -
  let ?s' = "snd (video_generation_process env job_id prompt s)"
  from vgp_shape [of job_id s env prompt] obtain mid t where
    mid: "mid = [] \<or> mid = [hf_message_update]" and t: "final_update t" and
    r: "run job_id (connecting_update # mid @ [t]) s ?s'"
    by (elim exE conjE)
  from run_writes [OF r] obtain wss where
    w: "writes ?s' = writes s @ concat wss" and
    l: "list_all2 (\<lambda>u ws. \<exists>x. set ws \<subseteq> {(job_id, x ++ u)}) (connecting_update # mid @ [t]) wss"
    by (elim exE conjE)
  from l obtain a rest where
    wss: "wss = a # rest" and a: "\<exists>x. set a \<subseteq> {(job_id, x ++ connecting_update)}" and
    rest: "list_all2 (\<lambda>u ws. \<exists>x. set ws \<subseteq> {(job_id, x ++ u)}) (mid @ [t]) rest"
    by (auto simp add: list_all2_Cons1)
  from rest obtain bs c where
    rest_eq: "rest = bs @ [c]" and
    bs: "list_all2 (\<lambda>u ws. \<exists>x. set ws \<subseteq> {(job_id, x ++ u)}) mid bs" and
    c: "\<exists>x. set c \<subseteq> {(job_id, x ++ t)}"
    by (auto simp add: list_all2_append1 list_all2_Cons1)
  have pa: "\<forall>w\<in>set a. is_processing (snd w) \<and> fst w = job_id"
    using a update_status_processing by auto
  have pc: "\<forall>w\<in>set c. is_terminal (snd w) \<and> fst w = job_id"
    using c update_status_terminal [OF t] by auto
  have "\<exists>b v. concat bs = b \<and> set (map snd b) \<subseteq> {v} \<and> (\<forall>w\<in>set b. fst w = job_id)"
  proof (rule disjE [OF mid])
    assume "mid = []"
    then have "bs = []" using bs by simp
    then show ?thesis by simp
  next
    assume "mid = [hf_message_update]"
    then obtain z x where z: "bs = [z]" "set z \<subseteq> {(job_id, x ++ hf_message_update)}"
      using bs by (auto simp add: list_all2_Cons1)
    have "set (map snd z) \<subseteq> {x ++ hf_message_update}" using z(2) by auto
    moreover have "\<forall>w\<in>set z. fst w = job_id" using z(2) by auto
    ultimately show ?thesis using z(1) by auto
  qed
  then obtain b v where b: "concat bs = b" "set (map snd b) \<subseteq> {v}" "\<forall>w\<in>set b. fst w = job_id"
    by (elim exE conjE)
  have "writes ?s' = writes s @ a @ b @ c" using w wss rest_eq b(1) by simp
  then show ?thesis using pa b(2) b(3) pc by (intro exI [of _ a] exI [of _ b] exI [of _ c] exI [of _ v]) auto
qed

text \<open>
  C1. Among the job dictionaries that one run of \<open>video_generation_process\<close> writes (to
  Redis, to the in-process map, or by updating a dictionary of the map in place), taken in
  order, none that follows a dictionary with status \<^verbatim>\<open>completed\<close> or \<^verbatim>\<open>error\<close> has
  status \<^verbatim>\<open>processing\<close>; and every one of them is written under the job's own id.
\<close>

theorem orchestration_never_regresses:
  "no_regress (map snd (new_writes s (snd (video_generation_process env job_id prompt s)))) \<and>
   (\<forall>w\<in>set (new_writes s (snd (video_generation_process env job_id prompt s))). fst w = job_id)"
proof -
  from vgp_writes [of env job_id prompt s] obtain a b c v where
    w: "writes (snd (video_generation_process env job_id prompt s)) = writes s @ a @ b @ c" and
    i: "\<forall>w\<in>set (a @ b @ c). fst w = job_id" and
    pa: "\<forall>w\<in>set a. is_processing (snd w)" and pb: "set (map snd b) \<subseteq> {v}" and
    pc: "\<forall>w\<in>set c. is_terminal (snd w)"
    by (elim exE conjE)
  have n: "new_writes s (snd (video_generation_process env job_id prompt s)) = a @ b @ c"
    by (simp add: new_writes_def w)
  have "no_regress (map snd a @ map snd b @ map snd c)"
  proof (rule no_regress_phases)
    show "\<forall>r\<in>set (map snd a). is_processing r" using pa by simp
    show "set (map snd b) \<subseteq> {v}" by (rule pb)
    show "\<forall>r\<in>set (map snd c). is_terminal r" using pc by simp
  qed
  then show ?thesis using i unfolding n by simp
qed

theorem orchestration_never_regresses_witness:
  "map (\<lambda>w. snd w ''status'') (new_writes demo_state (snd (video_generation_process quiet_env [7] (ustr ''a cat'') demo_state))) =
     [Some (PyStr (ustr ''processing'')), Some (PyStr (ustr ''processing'')),
      Some (PyStr (ustr ''error'')), Some (PyStr (ustr ''error''))] \<and>
   no_regress (map snd (new_writes demo_state (snd (video_generation_process quiet_env [7] (ustr ''a cat'') demo_state))))"
proof -
  have "map (\<lambda>w. snd w ''status'') (new_writes demo_state (snd (video_generation_process quiet_env [7] (ustr ''a cat'') demo_state))) =
     [Some (PyStr (ustr ''processing'')), Some (PyStr (ustr ''processing'')),
      Some (PyStr (ustr ''error'')), Some (PyStr (ustr ''error''))]"
    by (simp add: video_generation_process_def vidu_attempt_def use_huggingface_fallback_def
        hf_attempt_def use_mock_video_fallback_def mock_attempt_def try_except_def raise_def
        store_defs truthy_dict_def truthy_str_def os_path_exists_def new_writes_def
        demo_state_def boot_def quiet_env_def initial_job_def connecting_update_def failed_update_def)
  then show ?thesis
    using orchestration_never_regresses [of demo_state quiet_env "[7]" "ustr ''a cat''"] by blast
qed

section \<open>Merging updates and serving the artifact\<close>

lemma same_store_prompt_inv: "same_store s s1 \<Longrightarrow> prompt_inv p job_id s \<Longrightarrow> prompt_inv p job_id s1"
  by (simp add: same_store_def prompt_inv_def)

lemma map_add_prompt: "u ''prompt'' = None \<Longrightarrow> (x ++ u) ''prompt'' = x ''prompt''"
  by (simp add: map_add_def)

lemma upd_prompt_inv:
  assumes inv: "prompt_inv p job_id s" and u: "u ''prompt'' = None"
  shows "prompt_inv p job_id (upd job_id u s) \<and>
         (\<exists>ws. writes (upd job_id u s) = writes s @ ws \<and> (\<forall>w\<in>set ws. snd w ''prompt'' = p))"
proof -
  from upd_summary [of job_id u s] obtain x ws where
    w: "writes (upd job_id u s) = writes s @ ws" and
    ws: "set ws \<subseteq> {(job_id, x ++ u)}" and
    x: "redis s (redis_key job_id) = Some x \<or> memory s job_id = Some x \<or>
         (ws = [] \<and> redis (upd job_id u s) = redis s \<and> memory (upd job_id u s) = memory s)" and
    r: "redis (upd job_id u s) = redis s \<or>
        redis (upd job_id u s) = (redis s)(redis_key job_id \<mapsto> x ++ u)" and
    m: "memory (upd job_id u s) = memory s \<or>
        memory (upd job_id u s) = (memory s)(job_id \<mapsto> x ++ u)"
    by (elim exE conjE)
  show ?thesis
  proof (cases "redis s (redis_key job_id) = Some x \<or> memory s job_id = Some x")
    case True
    then have "x ''prompt'' = p" using inv by (auto simp add: prompt_inv_def)
    then have xp: "(x ++ u) ''prompt'' = p" using map_add_prompt [of u x] u by simp
    have "prompt_inv p job_id (upd job_id u s)"
      using inv r m xp by (auto simp add: prompt_inv_def)
    moreover have "\<forall>w\<in>set ws. snd w ''prompt'' = p" using ws xp by auto
    ultimately show ?thesis using w by blast
  next
    case False
    then have e: "ws = []" "redis (upd job_id u s) = redis s" "memory (upd job_id u s) = memory s"
      using x by auto
    have "prompt_inv p job_id (upd job_id u s)" using inv e by (simp add: prompt_inv_def)
    then show ?thesis using w e(1) by simp
  qed
qed

lemma run_prompt_inv:
  "run job_id us s s' \<Longrightarrow> prompt_inv p job_id s \<Longrightarrow> \<forall>u\<in>set us. u ''prompt'' = None \<Longrightarrow>
   prompt_inv p job_id s' \<and>
   (\<exists>ws. writes s' = writes s @ ws \<and> (\<forall>w\<in>set ws. snd w ''prompt'' = p))"
proof (induction us arbitrary: s)
  case Nil
  then have ss: "same_store s s'" by (simp add: run_nil)
  then have "writes s' = writes s" by (simp add: same_store_def)
  then show ?case using same_store_prompt_inv [OF ss Nil.prems(2)] by simp
next
  case (Cons u us)
  from Cons.prems(1) obtain s1 where s1: "same_store s s1" "run job_id us (upd job_id u s1) s'"
    by (auto simp add: run.simps)
  have inv1: "prompt_inv p job_id s1" using s1(1) Cons.prems(2) by (rule same_store_prompt_inv)
  have u: "u ''prompt'' = None" using Cons.prems(3) by simp
  from upd_prompt_inv [of p job_id s1 u, OF inv1 u] obtain ws1 where
    inv2: "prompt_inv p job_id (upd job_id u s1)" and
    w1: "writes (upd job_id u s1) = writes s1 @ ws1" "\<forall>w\<in>set ws1. snd w ''prompt'' = p"
    by (elim exE conjE)
  have us: "\<forall>u\<in>set us. u ''prompt'' = None" using Cons.prems(3) by simp
  from Cons.IH [OF s1(2) inv2 us] obtain ws2 where
    inv3: "prompt_inv p job_id s'" and
    w2: "writes s' = writes (upd job_id u s1) @ ws2" "\<forall>w\<in>set ws2. snd w ''prompt'' = p"
    by (elim exE conjE)
  have "writes s' = writes s @ (ws1 @ ws2)" using w1(1) w2(1) s1(1) by (simp add: same_store_def)
  moreover have "\<forall>w\<in>set (ws1 @ ws2). snd w ''prompt'' = p" using w1(2) w2(2) by auto
  ultimately show ?case using inv3 by blast
qed

lemma orchestration_updates_no_prompt:
  "connecting_update ''prompt'' = None" "hf_message_update ''prompt'' = None"
  "final_update t \<Longrightarrow> t ''prompt'' = None"
  by (auto simp add: connecting_update_def hf_message_update_def final_update_def failed_update_def
      completed_update_def)

lemma vgp_prompt_inv:
  assumes inv: "prompt_inv p job_id s"
  shows "prompt_inv p job_id (snd (video_generation_process env job_id prompt s)) \<and>
         (\<forall>w\<in>set (new_writes s (snd (video_generation_process env job_id prompt s))). snd w ''prompt'' = p)"
proof -
  let ?s' = "snd (video_generation_process env job_id prompt s)"
  from vgp_shape [of job_id s env prompt] obtain mid t where
    mid: "mid = [] \<or> mid = [hf_message_update]" and t: "final_update t" and
    r: "run job_id (connecting_update # mid @ [t]) s ?s'"
    by (elim exE conjE)
  have np: "\<forall>u\<in>set (connecting_update # mid @ [t]). u ''prompt'' = None"
    using mid orchestration_updates_no_prompt(1,2) orchestration_updates_no_prompt(3) [OF t] by auto
  from run_prompt_inv [OF r inv np] obtain ws where
    i: "prompt_inv p job_id ?s'" and w: "writes ?s' = writes s @ ws" "\<forall>w\<in>set ws. snd w ''prompt'' = p"
    by (elim exE conjE)
  have "new_writes s ?s' = ws" by (simp add: new_writes_def w(1))
  then show ?thesis using i w(2) by simp
qed

lemma generate_video_prompt_inv:
  assumes "strip prompt \<noteq> []" and "redis s (redis_key uuid4) = None" and "memory s uuid4 = None"
  shows "prompt_inv (Some (PyStr prompt)) uuid4 (snd (generate_video prompt uuid4 s))"
  using assms
  by (auto simp add: generate_video_def store_defs create_task_def prompt_inv_def initial_job_def
      split: if_splits)

lemma update_merge_writes:
  assumes g: "fst (get_job_data job_id s) = Inr (Some x)" and x: "x \<noteq> Map.empty"
  shows "new_writes s (snd (update_job_data job_id u s)) \<noteq> [] \<and>
         (\<forall>w\<in>set (new_writes s (snd (update_job_data job_id u s))). w = (job_id, x ++ u))"
  using update_job_data_merge [OF g x, of u, THEN conjunct1]
  by (auto simp add: new_writes_def)

text \<open>
  C9. \<open>update_job_data\<close> does nothing to the stores when \<open>get_job_data\<close> finds no record
  for the id (or an empty one). When it finds a record \<open>x\<close>, every dictionary it writes is
  \<open>x ++ u\<close>: each field of the update \<open>u\<close> takes the update's value and every other
  field keeps the value it had in \<open>x\<close>; the merged record ends up in Redis or in the
  in-process map. For a fresh id, \<open>generate_video\<close> leaves every record of the job with
  the prompt of the request, and \<open>video_generation_process\<close> keeps it: when every record
  of the job has the prompt field \<open>p\<close> before the run, every record of the job and every
  dictionary the run writes has it after.
\<close>

theorem merge_changes_only_given_fields:
  "(\<forall>cur. fst (get_job_data job_id s) = Inr cur \<and> \<not> truthy_dict cur \<longrightarrow>
       redis (snd (update_job_data job_id u s)) = redis s \<and>
       memory (snd (update_job_data job_id u s)) = memory s \<and>
       writes (snd (update_job_data job_id u s)) = writes s) \<and>
   (\<forall>x. fst (get_job_data job_id s) = Inr (Some x) \<and> x \<noteq> Map.empty \<longrightarrow>
       new_writes s (snd (update_job_data job_id u s)) \<noteq> [] \<and>
       (\<forall>w\<in>set (new_writes s (snd (update_job_data job_id u s))). w = (job_id, x ++ u)) \<and>
       (redis (snd (update_job_data job_id u s)) (redis_key job_id) = Some (x ++ u) \<or>
        memory (snd (update_job_data job_id u s)) job_id = Some (x ++ u)) \<and>
       (\<forall>k. (x ++ u) k = (case u k of Some v \<Rightarrow> Some v | None \<Rightarrow> x k))) \<and>
   (strip prompt \<noteq> [] \<and> redis s (redis_key job_id) = None \<and> memory s job_id = None \<longrightarrow>
       prompt_inv (Some (PyStr prompt)) job_id (snd (generate_video prompt job_id s))) \<and>
   (\<forall>p. prompt_inv p job_id s \<longrightarrow>
       prompt_inv p job_id (snd (video_generation_process env job_id prompt s)) \<and>
       (\<forall>w\<in>set (new_writes s (snd (video_generation_process env job_id prompt s))).
           snd w ''prompt'' = p))"
proof (intro conjI allI impI)
  fix cur
  assume a: "fst (get_job_data job_id s) = Inr cur \<and> \<not> truthy_dict cur"
  note n = update_job_data_noop [OF conjunct1 [OF a] conjunct2 [OF a], of u]
  show "redis (snd (update_job_data job_id u s)) = redis s" using n by simp
  show "memory (snd (update_job_data job_id u s)) = memory s" using n by simp
  show "writes (snd (update_job_data job_id u s)) = writes s" using n by simp
next
  fix x
  assume a: "fst (get_job_data job_id s) = Inr (Some x) \<and> x \<noteq> Map.empty"
  note m = update_job_data_merge [OF conjunct1 [OF a] conjunct2 [OF a], of u]
  note w = update_merge_writes [OF conjunct1 [OF a] conjunct2 [OF a], of u]
  show "new_writes s (snd (update_job_data job_id u s)) \<noteq> []" using w by simp
  show "\<forall>w\<in>set (new_writes s (snd (update_job_data job_id u s))). w = (job_id, x ++ u)"
    using w by simp
  show "redis (snd (update_job_data job_id u s)) (redis_key job_id) = Some (x ++ u) \<or>
        memory (snd (update_job_data job_id u s)) job_id = Some (x ++ u)"
    using m by simp
  fix k
  show "(x ++ u) k = (case u k of Some v \<Rightarrow> Some v | None \<Rightarrow> x k)"
    by (simp add: map_add_def split: option.splits)
next
  assume "strip prompt \<noteq> [] \<and> redis s (redis_key job_id) = None \<and> memory s job_id = None"
  then show "prompt_inv (Some (PyStr prompt)) job_id (snd (generate_video prompt job_id s))"
    using generate_video_prompt_inv by blast
next
  fix p
  assume i: "prompt_inv p job_id s"
  show "prompt_inv p job_id (snd (video_generation_process env job_id prompt s))"
    using vgp_prompt_inv [OF i] by simp
  show "\<forall>w\<in>set (new_writes s (snd (video_generation_process env job_id prompt s))).
           snd w ''prompt'' = p"
    using vgp_prompt_inv [OF i] by simp
qed

theorem merge_changes_only_given_fields_witness:
  "fst (get_job_data [7] demo_state) = Inr (Some (initial_job (ustr ''a cat''))) \<and>
   list_all (\<lambda>w. w = ([7], initial_job (ustr ''a cat'') ++ connecting_update))
     (new_writes demo_state (snd (update_job_data [7] connecting_update demo_state))) \<and>
   new_writes demo_state (snd (update_job_data [7] connecting_update demo_state)) \<noteq> [] \<and>
   prompt_inv (Some (PyStr (ustr ''a cat''))) [7] demo_state \<and>
   list_all (\<lambda>w. snd w ''prompt'' = Some (PyStr (ustr ''a cat'')))
     (new_writes demo_state (snd (video_generation_process quiet_env [7] (ustr ''a cat'') demo_state)))"
proof -
  note t = merge_changes_only_given_fields
    [of "[7]" demo_state connecting_update "ustr ''a cat''" quiet_env]
  have g: "fst (get_job_data [7] demo_state) = Inr (Some (initial_job (ustr ''a cat'')))"
    by (simp add: store_defs demo_state_def boot_def)
  have x: "initial_job (ustr ''a cat'') \<noteq> Map.empty" by (simp add: initial_job_def)
  have i: "prompt_inv (Some (PyStr (ustr ''a cat''))) [7] demo_state"
    by (simp add: prompt_inv_def demo_state_def boot_def initial_job_def)
  from t [THEN conjunct2, THEN conjunct1, rule_format, of "initial_job (ustr ''a cat'')"] g x
  have m: "new_writes demo_state (snd (update_job_data [7] connecting_update demo_state)) \<noteq> [] \<and>
       (\<forall>w\<in>set (new_writes demo_state (snd (update_job_data [7] connecting_update demo_state))).
          w = ([7], initial_job (ustr ''a cat'') ++ connecting_update))"
    by blast
  from t [THEN conjunct2, THEN conjunct2, THEN conjunct2, rule_format, of "Some (PyStr (ustr ''a cat''))"] i
  have p: "\<forall>w\<in>set (new_writes demo_state (snd (video_generation_process quiet_env [7] (ustr ''a cat'') demo_state))).
           snd w ''prompt'' = Some (PyStr (ustr ''a cat''))"
    by blast
  show ?thesis using g m i p by (simp add: list_all_iff)
qed

lemma same_store_wf: "same_store s s1 \<Longrightarrow> wf_store s \<Longrightarrow> wf_store s1"
  by (simp add: same_store_def wf_store_def)

lemma map_add_status: "x ''status'' \<noteq> None \<Longrightarrow> (x ++ u) ''status'' \<noteq> None"
  by (simp add: map_add_def split: option.splits)

lemma wf_store_step:
  assumes wf: "wf_store s" and v: "v ''status'' \<noteq> None"
    and r: "redis s' = redis s \<or> redis s' = (redis s)(k \<mapsto> v)"
    and m: "memory s' = memory s \<or> memory s' = (memory s)(j \<mapsto> v)"
  shows "wf_store s'"
proof -
  have a: "\<forall>k' r'. redis s' k' = Some r' \<longrightarrow> r' ''status'' \<noteq> None"
  proof (intro allI impI)
    fix k' r' assume h: "redis s' k' = Some r'"
    from r show "r' ''status'' \<noteq> None"
    proof
      assume "redis s' = redis s"
      then show ?thesis using wf h by (simp add: wf_store_def)
    next
      assume e: "redis s' = (redis s)(k \<mapsto> v)"
      show ?thesis
      proof (cases "k' = k")
        case True
        then have "r' = v" using h e by simp
        then show ?thesis using v by simp
      next
        case False
        then have "redis s k' = Some r'" using h e by simp
        then show ?thesis using wf by (simp add: wf_store_def)
      qed
    qed
  qed
  have b: "\<forall>k' r'. memory s' k' = Some r' \<longrightarrow> r' ''status'' \<noteq> None"
  proof (intro allI impI)
    fix k' r' assume h: "memory s' k' = Some r'"
    from m show "r' ''status'' \<noteq> None"
    proof
      assume "memory s' = memory s"
      then show ?thesis using wf h by (simp add: wf_store_def)
    next
      assume e: "memory s' = (memory s)(j \<mapsto> v)"
      show ?thesis
      proof (cases "k' = j")
        case True
        then have "r' = v" using h e by simp
        then show ?thesis using v by simp
      next
        case False
        then have "memory s k' = Some r'" using h e by simp
        then show ?thesis using wf by (simp add: wf_store_def)
      qed
    qed
  qed
  show ?thesis unfolding wf_store_def using a b by blast
qed

lemma upd_wf:
  assumes wf: "wf_store s"
  shows "wf_store (upd job_id u s)"
proof -
  from upd_summary [of job_id u s] obtain x ws where
    x: "redis s (redis_key job_id) = Some x \<or> memory s job_id = Some x \<or>
         (ws = [] \<and> redis (upd job_id u s) = redis s \<and> memory (upd job_id u s) = memory s)" and
    r: "redis (upd job_id u s) = redis s \<or>
        redis (upd job_id u s) = (redis s)(redis_key job_id \<mapsto> x ++ u)" and
    m: "memory (upd job_id u s) = memory s \<or>
        memory (upd job_id u s) = (memory s)(job_id \<mapsto> x ++ u)"
    by blast
  show ?thesis
  proof (cases "redis s (redis_key job_id) = Some x \<or> memory s job_id = Some x")
    case True
    then have "x ''status'' \<noteq> None" using wf unfolding wf_store_def by blast
    then have "(x ++ u) ''status'' \<noteq> None" by (rule map_add_status)
    with wf show ?thesis using r m by (rule wf_store_step)
  next
    case False
    then have "redis (upd job_id u s) = redis s" "memory (upd job_id u s) = memory s"
      using x by blast+
    then show ?thesis using wf by (simp add: wf_store_def)
  qed
qed

lemma run_wf: "run job_id us s s' \<Longrightarrow> wf_store s \<Longrightarrow> wf_store s'"
proof (induction us arbitrary: s)
  case Nil
  then show ?case by (simp add: run_nil same_store_wf)
next
  case (Cons u us)
  from Cons.prems(1) obtain s1 where s1: "same_store s s1" "run job_id us (upd job_id u s1) s'"
    by (auto simp add: run.simps)
  have "wf_store (upd job_id u s1)" using same_store_wf [OF s1(1) Cons.prems(2)] by (rule upd_wf)
  then show ?case using Cons.IH [OF s1(2)] by simp
qed

lemma wf_store_orchestration:
  "wf_store s \<Longrightarrow> wf_store (snd (video_generation_process env job_id prompt s))"
  using vgp_shape [of job_id s env prompt] run_wf by blast

lemma wf_store_generate_video:
  "wf_store s \<Longrightarrow> wf_store (snd (generate_video prompt uuid4 s))"
  by (auto simp add: generate_video_def store_defs create_task_def wf_store_def initial_job_def
      raise_def split: if_splits)

lemma wf_store_boot: "wf_store (boot client out)"
  by (simp add: wf_store_def boot_def)










end
